theory Spec2Isabelle
  imports Main
begin

section \<open>Token issuance and refresh (tokenProvider.ts)\<close>

text \<open>
  The module has two classes. \<open>StreamTokenProvider\<close> mints and checks signed bearer
  tokens with the \<open>jsonwebtoken\<close> package; \<open>TokenManager\<close> keeps one minted token
  and decides when to replace it.

  Numbers are modelled as \<open>int\<close>: times are milliseconds since the epoch (what
  \<open>Date.now()\<close> returns), validity windows and lead times are whole numbers.
  \<open>Math.floor(Date.now() / 1000)\<close> is \<open>now div 1000\<close> (\<open>div\<close> on \<open>int\<close> rounds down),
  and a comparison with the unrounded quotient \<open>Date.now() / 1000\<close> is written with
  both sides multiplied by 1000.

  Every place where the code reads the clock has a label of its own; a clock gives the
  reading made at each place during one call. A clock that does not advance during the
  call returns the same reading everywhere.
\<close>

datatype clock_read =
    VerifyClock     \<comment> \<open>\<open>clockTimestamp\<close> inside \<open>jwt.verify\<close>\<close>
  | DateNow         \<comment> \<open>\<open>Date.now()\<close> in \<open>validateToken\<close> and \<open>isTokenExpiringSoon\<close>\<close>
  | IatNow          \<comment> \<open>\<open>Date.now()\<close> of the \<open>iat\<close> field in \<open>generateUserToken\<close>\<close>
  | ExpNow          \<comment> \<open>\<open>Date.now()\<close> of the \<open>exp\<close> field in \<open>generateUserToken\<close>\<close>
  | SignClock       \<comment> \<open>the timestamp \<open>jwt.sign\<close> reads when the payload's \<open>iat\<close> is falsy\<close>
  | ExpiresAtNow    \<comment> \<open>\<open>Date.now()\<close> of \<open>expiresAt\<close> in \<open>generateUserToken\<close>\<close>

type_synonym clock = "clock_read \<Rightarrow> int"

definition frozen :: "int \<Rightarrow> clock" where
  "frozen now = (\<lambda>_. now)"

subsection \<open>The jsonwebtoken package\<close>

text \<open>
  Modelled from the spec: \<open>jwt.sign\<close> and \<open>jwt.verify\<close> of the package
  \<open>jsonwebtoken\<close>, which the module imports and whose code is not part of the
  repository. The spec describes the credential as a signed bearer token string that
  carries the subject, the issue time and the expiry time, signed with a keyed hash
  (HMAC-SHA256) under the secret, and verification as recomputing the signature and
  comparing the expiry with the current time, failing on any structural or
  cryptographic mismatch and when now is at or past the expiry. The definitions below
  follow that description in the steps the package takes for a string secret and no
  options but \<open>algorithm: 'HS256'\<close> on signing: a token is three segments over the
  base64url alphabet joined by dots, the third being the keyed hash of the first two.

  Two parts are kept abstract. The keyed hash (HMAC with SHA-256, SHA-384 or SHA-512)
  is a parameter \<open>H\<close> of every operation; its digest is read as a natural number. The
  segment encoding (base64url of the JSON text) is replaced by a simpler encoding into
  the same alphabet that can be decoded again; of a payload it keeps the claims the
  package and the module look at (\<open>user_id\<close>, \<open>iat\<close>, \<open>exp\<close>, \<open>nbf\<close>), each an absent
  or present value.
\<close>

datatype jwt_alg = HS256 | HS384 | HS512 | NotHS

record jwt_payload =
  user_id :: "string option"
  iat :: "int option"
  exp :: "int option"
  nbf :: "int option"

datatype jwt_error =
    SecretMustHaveValue     \<comment> \<open>sign: secretOrPrivateKey must have a value\<close>
  | JwtMustBeProvided       \<comment> \<open>verify: jwt must be provided\<close>
  | JwtMalformed            \<comment> \<open>verify: jwt malformed\<close>
  | InvalidToken            \<comment> \<open>verify: invalid token\<close>
  | SignatureRequired       \<comment> \<open>verify: jwt signature is required\<close>
  | SecretMustBeProvided    \<comment> \<open>verify: secret or public key must be provided\<close>
  | SpecifyNone             \<comment> \<open>verify: please specify "none" in "algorithms"\<close>
  | InvalidAlgorithm        \<comment> \<open>verify: invalid algorithm\<close>
  | InvalidSignature        \<comment> \<open>verify: invalid signature\<close>
  | JwtNotActive            \<comment> \<open>verify: jwt not active\<close>
  | JwtExpired              \<comment> \<open>verify: jwt expired\<close>
  | TypeError               \<comment> \<open>a property read on \<open>null\<close>\<close>

type_synonym mac = "jwt_alg \<Rightarrow> string \<Rightarrow> string \<Rightarrow> nat"

definition b64url_alphabet :: string where
  "b64url_alphabet =
     ''ABCDEFGHIJKLMNOPQRSTUVWXYZabcdefghijklmnopqrstuvwxyz0123456789-_''"

definition sextet_char :: "nat \<Rightarrow> char" where
  "sextet_char n = b64url_alphabet ! (n mod 64)"

definition char_sextet :: "char \<Rightarrow> nat option" where
  "char_sextet c = map_of (zip b64url_alphabet [0..<64]) c"

definition is_b64url :: "string \<Rightarrow> bool" where
  "is_b64url s = list_all (\<lambda>c. char_sextet c \<noteq> None) s"

definition encode_segment :: "nat list \<Rightarrow> string" where
  "encode_segment ns = map sextet_char ns"

fun decode_segment :: "string \<Rightarrow> nat list option" where
  "decode_segment [] = Some []"
| "decode_segment (c # cs) =
     (case char_sextet c of
        None \<Rightarrow> None
      | Some n \<Rightarrow> (case decode_segment cs of None \<Rightarrow> None | Some ns \<Rightarrow> Some (n # ns)))"

text \<open>
  Modelled from the spec: the content of a segment, in place of the JSON text. A
  number takes five bits to a sextet, the sixth bit set on all but the last.
\<close>

fun enc_nat :: "nat \<Rightarrow> nat list" where
  "enc_nat n = (if n < 32 then [n] else (32 + n mod 32) # enc_nat (n div 32))"

fun dec_nat :: "nat list \<Rightarrow> (nat \<times> nat list) option" where
  "dec_nat [] = None"
| "dec_nat (d # ds) =
     (if d < 32 then Some (d, ds)
      else (case dec_nat ds of
              None \<Rightarrow> None
            | Some (n, rest) \<Rightarrow> Some (d - 32 + 32 * n, rest)))"

definition enc_int :: "int \<Rightarrow> nat list" where
  "enc_int i = (if 0 \<le> i then 0 # enc_nat (nat i) else 1 # enc_nat (nat (- i)))"

fun dec_int :: "nat list \<Rightarrow> (int \<times> nat list) option" where
  "dec_int [] = None"
| "dec_int (s # ds) =
     (case dec_nat ds of
        None \<Rightarrow> None
      | Some (n, rest) \<Rightarrow>
          if s = 0 then Some (int n, rest)
          else if s = 1 then Some (- int n, rest)
          else None)"

fun enc_chars :: "string \<Rightarrow> nat list" where
  "enc_chars [] = []"
| "enc_chars (c # cs) = enc_nat (of_char c) @ enc_chars cs"

fun dec_chars :: "nat \<Rightarrow> nat list \<Rightarrow> (string \<times> nat list) option" where
  "dec_chars 0 ds = Some ([], ds)"
| "dec_chars (Suc k) ds =
     (case dec_nat ds of
        None \<Rightarrow> None
      | Some (n, rest) \<Rightarrow>
          (case dec_chars k rest of
             None \<Rightarrow> None
           | Some (cs, rest') \<Rightarrow> Some (char_of n # cs, rest')))"

definition enc_str :: "string \<Rightarrow> nat list" where
  "enc_str s = enc_nat (length s) @ enc_chars s"

definition dec_str :: "nat list \<Rightarrow> (string \<times> nat list) option" where
  "dec_str ds =
     (case dec_nat ds of None \<Rightarrow> None | Some (k, rest) \<Rightarrow> dec_chars k rest)"

text \<open>
  Modelled from the spec: a claim that may be absent is a sextet 0, or a sextet 1 and
  then the value; a payload is its four claims in a row.
\<close>

definition enc_opt :: "('a \<Rightarrow> nat list) \<Rightarrow> 'a option \<Rightarrow> nat list" where
  "enc_opt enc v = (case v of None \<Rightarrow> [0] | Some x \<Rightarrow> 1 # enc x)"

definition dec_opt ::
  "(nat list \<Rightarrow> ('a \<times> nat list) option) \<Rightarrow> nat list \<Rightarrow> ('a option \<times> nat list) option" where
  "dec_opt dec ds =
     (case ds of
        [] \<Rightarrow> None
      | t # rest \<Rightarrow>
          if t = 0 then Some (None, rest)
          else if t = 1 then
            (case dec rest of None \<Rightarrow> None | Some (x, rest') \<Rightarrow> Some (Some x, rest'))
          else None)"

definition enc_payload :: "jwt_payload \<Rightarrow> nat list" where
  "enc_payload p =
     enc_opt enc_str (user_id p) @ enc_opt enc_int (iat p)
       @ enc_opt enc_int (exp p) @ enc_opt enc_int (nbf p)"

definition parse_payload :: "nat list \<Rightarrow> jwt_payload option" where
  "parse_payload ds =
     (case dec_opt dec_str ds of
        None \<Rightarrow> None
      | Some (u, r1) \<Rightarrow>
     (case dec_opt dec_int r1 of
        None \<Rightarrow> None
      | Some (i, r2) \<Rightarrow>
     (case dec_opt dec_int r2 of
        None \<Rightarrow> None
      | Some (e, r3) \<Rightarrow>
     (case dec_opt dec_int r3 of
        None \<Rightarrow> None
      | Some (n, r4) \<Rightarrow>
          if r4 = [] then Some \<lparr>user_id = u, iat = i, exp = e, nbf = n\<rparr> else None))))"

text \<open>
  Modelled from the spec: a payload segment that is not an object of claims is handed
  on by the package as a plain string, on which every claim reads as undefined.
\<close>

definition no_claims :: jwt_payload where
  "no_claims = \<lparr>user_id = None, iat = None, exp = None, nbf = None\<rparr>"

definition decode_payload :: "string \<Rightarrow> jwt_payload" where
  "decode_payload seg =
     (case decode_segment seg of
        None \<Rightarrow> no_claims
      | Some ds \<Rightarrow> (case parse_payload ds of None \<Rightarrow> no_claims | Some p \<Rightarrow> p))"

definition enc_header :: "jwt_alg \<Rightarrow> nat list" where
  "enc_header a = (case a of HS256 \<Rightarrow> [0] | HS384 \<Rightarrow> [1] | HS512 \<Rightarrow> [2] | NotHS \<Rightarrow> [3])"

definition decode_header :: "string \<Rightarrow> jwt_alg option" where
  "decode_header seg =
     (case decode_segment seg of
        Some [n] \<Rightarrow>
          if n = 0 then Some HS256
          else if n = 1 then Some HS384
          else if n = 2 then Some HS512
          else if n = 3 then Some NotHS
          else None
      | _ \<Rightarrow> None)"

text \<open>\<open>String.prototype.split\<close> with a one-character separator, as \<open>jwt.verify\<close> uses it.\<close>

fun split_on :: "char \<Rightarrow> string \<Rightarrow> string list" where
  "split_on sep [] = [[]]"
| "split_on sep (c # cs) =
     (if c = sep then [] # split_on sep cs
      else (case split_on sep cs of
              [] \<Rightarrow> [[c]]
            | p # ps \<Rightarrow> (c # p) # ps))"

definition jws_signature :: "mac \<Rightarrow> jwt_alg \<Rightarrow> string \<Rightarrow> string \<Rightarrow> string" where
  "jws_signature H a secret secured_input = encode_segment (enc_nat (H a secret secured_input))"

text \<open>
  Modelled from the spec: the compact serialisation of a signed token, which is the
  encoded header, the encoded payload and the signature of the two.
\<close>

definition jws_sign :: "mac \<Rightarrow> jwt_alg \<Rightarrow> jwt_payload \<Rightarrow> string \<Rightarrow> string" where
  "jws_sign H a payload secret =
     (let secured_input = encode_segment (enc_header a) @ ''.''
                            @ encode_segment (enc_payload payload)
      in secured_input @ ''.'' @ jws_signature H a secret secured_input)"

text \<open>
  Modelled from the spec: decoding without verification. The string has the shape
  \<open>header.payload.signature\<close> over the base64url alphabet (header and payload not
  empty) and the header can be read; otherwise the result is \<open>null\<close>.
\<close>

definition jws_decode :: "string \<Rightarrow> (jwt_alg \<times> jwt_payload \<times> string) option" where
  "jws_decode jwt_string =
     (case split_on CHR ''.'' jwt_string of
        [h, p, s] \<Rightarrow>
          if h \<noteq> [] \<and> p \<noteq> [] \<and> is_b64url h \<and> is_b64url p \<and> is_b64url s
          then (case decode_header h of
                  None \<Rightarrow> None
                | Some a \<Rightarrow> Some (a, decode_payload p, s))
          else None
      | _ \<Rightarrow> None)"

definition jwt_decode :: "string \<Rightarrow> jwt_payload option" where
  "jwt_decode jwt_string =
     (case jws_decode jwt_string of None \<Rightarrow> None | Some (a, payload, s) \<Rightarrow> Some payload)"

text \<open>
  Modelled from the spec: \<open>jwt.sign(payload, secret, {algorithm: 'HS256'})\<close>, which is
  not in the repository. It refuses an empty secret, sets
  \<open>payload.iat\<close> to \<open>payload.iat || Math.floor(Date.now() / 1000)\<close>, and signs the
  encoded header and payload.
\<close>

definition jwt_sign :: "mac \<Rightarrow> jwt_payload \<Rightarrow> string \<Rightarrow> int \<Rightarrow> jwt_error + string" where
  "jwt_sign H payload secret now =
     (if secret = [] then Inl SecretMustHaveValue
      else
        let timestamp = (case iat payload of
                           None \<Rightarrow> now div 1000
                         | Some t \<Rightarrow> if t = 0 then now div 1000 else t)
        in Inr (jws_sign H HS256 (payload\<lparr>iat := Some timestamp\<rparr>) secret))"

text \<open>
  Modelled from the spec: the time checks of \<open>jwt.verify\<close> against
  \<open>clockTimestamp\<close>. A token whose \<open>nbf\<close> is
  later is not yet active, a token whose \<open>exp\<close> is not later has expired.
\<close>

definition check_times :: "jwt_payload \<Rightarrow> int \<Rightarrow> jwt_error + jwt_payload" where
  "check_times payload clockTimestamp =
     (if (case nbf payload of None \<Rightarrow> False | Some n \<Rightarrow> n > clockTimestamp)
      then Inl JwtNotActive
      else if (case exp payload of None \<Rightarrow> False | Some e \<Rightarrow> clockTimestamp \<ge> e)
      then Inl JwtExpired
      else Inr payload)"

text \<open>
  Modelled from the spec: \<open>jwt.verify(token, secret)\<close>, which is not in the
  repository, in the order of the package's checks: the token is
  present; it has three dot-separated parts; it decodes; a signature and a secret are
  both there; the header's algorithm is one of the HS family (the default for a
  secret); the signature segment equals the one computed from the first two segments;
  then the time checks, with \<open>clockTimestamp = Math.floor(Date.now() / 1000)\<close>.
\<close>

definition jwt_verify :: "mac \<Rightarrow> string \<Rightarrow> string \<Rightarrow> int \<Rightarrow> jwt_error + jwt_payload" where
  "jwt_verify H jwt_string secret now =
     (let clockTimestamp = now div 1000 in
      if jwt_string = [] then Inl JwtMustBeProvided
      else (case split_on CHR ''.'' jwt_string of
        [h, p, s] \<Rightarrow>
          (case jws_decode jwt_string of
             None \<Rightarrow> Inl InvalidToken
           | Some (a, payload, sg) \<Rightarrow>
               if s = [] \<and> secret \<noteq> [] then Inl SignatureRequired
               else if s \<noteq> [] \<and> secret = [] then Inl SecretMustBeProvided
               else if s = [] then Inl SpecifyNone
               else if a = NotHS then Inl InvalidAlgorithm
               else if s \<noteq> jws_signature H a secret (h @ ''.'' @ p) then Inl InvalidSignature
               else check_times payload clockTimestamp)
      | _ \<Rightarrow> Inl JwtMalformed))"

subsection \<open>Exceptions\<close>

text \<open>
  A thrown exception is the left summand of the result. \<open>try_catch body handler\<close> is
  \<open>try { body } catch (error) { handler }\<close>.
\<close>

definition try_catch :: "('e + 'a) \<Rightarrow> ('e \<Rightarrow> 'e + 'a) \<Rightarrow> 'e + 'a" where
  "try_catch body handler = (case body of Inl e \<Rightarrow> handler e | Inr v \<Rightarrow> Inr v)"

subsection \<open>StreamTokenProvider\<close>

text \<open>
  The constructor stores the API key and the secret and checks neither. The callers in
  the repository refuse to start without a secret, and \<open>jwt.sign\<close> refuses an empty
  one at each call.
\<close>

record StreamTokenProvider =
  apiKey :: string
  apiSecret :: string

record TokenInfo =
  token :: string
  expiresAt :: int
  userId :: string

text \<open>
  \<open>generateUserToken(options)\<close>. The two fields of \<open>options\<close> are the arguments
  \<open>uid\<close> and \<open>validity\<close>; an absent \<open>validityInSeconds\<close> is \<open>None\<close> and takes the
  default 3600.
\<close>

definition generateUserToken ::
  "mac \<Rightarrow> StreamTokenProvider \<Rightarrow> string \<Rightarrow> int option \<Rightarrow> clock \<Rightarrow> jwt_error + TokenInfo" where
  "generateUserToken H P uid validity clk =
     (let validityInSeconds = (case validity of None \<Rightarrow> 3600 | Some v \<Rightarrow> v);
          payload = \<lparr>user_id = Some uid,
                     iat = Some (clk IatNow div 1000),
                     exp = Some (clk ExpNow div 1000 + validityInSeconds),
                     nbf = None\<rparr>
      in (case jwt_sign H payload (apiSecret P) (clk SignClock) of
            Inl e \<Rightarrow> Inl e
          | Inr tok \<Rightarrow>
              Inr \<lparr>token = tok,
                   expiresAt = clk ExpiresAtNow + validityInSeconds * 1000,
                   userId = uid\<rparr>))"

text \<open>
  \<open>validateToken(token)\<close>. \<open>decoded.exp && decoded.exp < Date.now() / 1000\<close> holds when
  \<open>exp\<close> is present, not 0, and \<open>exp * 1000 < Date.now()\<close>.
\<close>

definition validateToken ::
  "mac \<Rightarrow> StreamTokenProvider \<Rightarrow> string \<Rightarrow> clock \<Rightarrow> jwt_error + bool" where
  "validateToken H P tok clk =
     try_catch
       (case jwt_verify H tok (apiSecret P) (clk VerifyClock) of
          Inl e \<Rightarrow> Inl e
        | Inr decoded \<Rightarrow>
            (case exp decoded of
               Some e \<Rightarrow> if e \<noteq> 0 \<and> e * 1000 < clk DateNow then Inr False else Inr True
             | None \<Rightarrow> Inr True))
       (\<lambda>error. Inr False)"

text \<open>
  \<open>getUserFromToken(token)\<close>: the object \<open>{userId: decoded.user_id, exp: decoded.exp}\<close>
  is the pair of the two claims; \<open>null\<close> is \<open>None\<close>.
\<close>

definition getUserFromToken ::
  "mac \<Rightarrow> StreamTokenProvider \<Rightarrow> string \<Rightarrow> clock
     \<Rightarrow> jwt_error + (string option \<times> int option) option" where
  "getUserFromToken H P tok clk =
     try_catch
       (case jwt_verify H tok (apiSecret P) (clk VerifyClock) of
          Inl e \<Rightarrow> Inl e
        | Inr decoded \<Rightarrow> Inr (Some (user_id decoded, exp decoded)))
       (\<lambda>error. Inr None)"

text \<open>
  \<open>isTokenExpiringSoon(token, minutesBeforeExpiry = 5)\<close>; an absent second argument is
  \<open>None\<close>. \<open>!decoded.exp\<close> holds when \<open>exp\<close> is absent or 0. The lead is a number of
  minutes, turned into milliseconds like the expiry.
\<close>

definition isTokenExpiringSoon ::
  "mac \<Rightarrow> StreamTokenProvider \<Rightarrow> string \<Rightarrow> int option \<Rightarrow> clock \<Rightarrow> jwt_error + bool" where
  "isTokenExpiringSoon H P tok minutes clk =
     (let minutesBeforeExpiry = (case minutes of None \<Rightarrow> 5 | Some m \<Rightarrow> m) in
      try_catch
        (case jwt_verify H tok (apiSecret P) (clk VerifyClock) of
           Inl e \<Rightarrow> Inl e
         | Inr decoded \<Rightarrow>
             (case exp decoded of
                None \<Rightarrow> Inr False
              | Some e \<Rightarrow>
                  if e = 0 then Inr False
                  else
                    let expiryTime = e * 1000;
                        warningTime = expiryTime - (minutesBeforeExpiry * 60 * 1000)
                    in Inr (clk DateNow \<ge> warningTime)))
        (\<lambda>error. Inr True))"

subsection \<open>TokenManager\<close>

text \<open>
  The refresh callback is a function of the caller; the model keeps a reference to it
  (of any type \<open>'cb\<close>) and records each invocation with the token it is given. A
  callback is taken to return normally and not to call back into the manager.
\<close>

record 'cb TokenManager =
  tokenProvider :: StreamTokenProvider
  currentToken :: "TokenInfo option"
  refreshCallback :: "'cb option"

definition newTokenManager :: "StreamTokenProvider \<Rightarrow> 'cb TokenManager" where
  "newTokenManager P = \<lparr>tokenProvider = P, currentToken = None, refreshCallback = None\<rparr>"

definition setRefreshCallback :: "'cb TokenManager \<Rightarrow> 'cb \<Rightarrow> 'cb TokenManager" where
  "setRefreshCallback M callback = M\<lparr>refreshCallback := Some callback\<rparr>"

text \<open>
  \<open>getValidToken(userId, validityInSeconds?)\<close> returns the token string, the manager
  after the call and the callback invocations made, or the exception thrown by the
  provider (the manager is then as before the call). \<open>needsRefresh\<close> is the condition
  of its \<open>if\<close>: no current token, or one of another user, or one that
  \<open>isTokenExpiringSoon\<close> reports, tried in this order. The method has no \<open>await\<close> and
  runs to its end without interruption. Reading \<open>this.currentToken.token\<close> of \<open>null\<close>
  would be a \<open>TypeError\<close>; the condition excludes it.
\<close>

definition needsRefresh ::
  "mac \<Rightarrow> 'cb TokenManager \<Rightarrow> string \<Rightarrow> clock \<Rightarrow> jwt_error + bool" where
  "needsRefresh H M uid clk =
     (case currentToken M of
        None \<Rightarrow> Inr True
      | Some cur \<Rightarrow>
          if userId cur \<noteq> uid then Inr True
          else isTokenExpiringSoon H (tokenProvider M) (token cur) None clk)"

definition getValidToken ::
  "mac \<Rightarrow> 'cb TokenManager \<Rightarrow> string \<Rightarrow> int option \<Rightarrow> clock
     \<Rightarrow> jwt_error + (string \<times> 'cb TokenManager \<times> ('cb \<times> string) list)" where
  "getValidToken H M uid validity clk =
     (case needsRefresh H M uid clk of
        Inl e \<Rightarrow> Inl e
      | Inr True \<Rightarrow>
          (case generateUserToken H (tokenProvider M) uid validity clk of
             Inl e \<Rightarrow> Inl e
           | Inr fresh \<Rightarrow>
               Inr (token fresh,
                    M\<lparr>currentToken := Some fresh\<rparr>,
                    (case refreshCallback M of
                       None \<Rightarrow> []
                     | Some callback \<Rightarrow> [(callback, token fresh)])))
      | Inr False \<Rightarrow>
          (case currentToken M of
             None \<Rightarrow> Inl TypeError
           | Some cur \<Rightarrow> Inr (token cur, M, [])))"

definition clearToken :: "'cb TokenManager \<Rightarrow> 'cb TokenManager" where
  "clearToken M = M\<lparr>currentToken := None\<rparr>"

subsection \<open>Sequences of calls\<close>

text \<open>
  A manager is used through its three methods. A run starts from a newly constructed
  manager, performs the calls in order, and keeps the callback invocations made so far;
  a call of \<open>getValidToken\<close> that throws leaves the manager as it was.
\<close>

datatype 'cb call =
    SetRefreshCallback 'cb
  | GetValidToken string "int option" clock
  | ClearToken

fun perform ::
  "mac \<Rightarrow> 'cb TokenManager \<times> ('cb \<times> string) list \<Rightarrow> 'cb call
     \<Rightarrow> 'cb TokenManager \<times> ('cb \<times> string) list" where
  "perform H (M, invoked) (SetRefreshCallback callback) = (setRefreshCallback M callback, invoked)"
| "perform H (M, invoked) (GetValidToken uid validity clk) =
     (case getValidToken H M uid validity clk of
        Inl e \<Rightarrow> (M, invoked)
      | Inr (tok, M', calls) \<Rightarrow> (M', invoked @ calls))"
| "perform H (M, invoked) ClearToken = (clearToken M, invoked)"

definition run ::
  "mac \<Rightarrow> StreamTokenProvider \<Rightarrow> 'cb call list \<Rightarrow> 'cb TokenManager \<times> ('cb \<times> string) list" where
  "run H P calls = foldl (perform H) (newTokenManager P, []) calls"

text \<open>The subject of the most recent \<open>getValidToken\<close> call of a sequence, if there is one.\<close>

fun last_request :: "'cb call list \<Rightarrow> string option" where
  "last_request [] = None"
| "last_request (c # cs) =
     (case last_request cs of
        Some uid \<Rightarrow> Some uid
      | None \<Rightarrow> (case c of GetValidToken uid validity clk \<Rightarrow> Some uid | _ \<Rightarrow> None))"

subsection \<open>Notions used in the statements\<close>

text \<open>
  The issue time a minted token carries is read at \<open>IatNow\<close> (at \<open>SignClock\<close> when that
  reading is in second 0), its expiry is counted from the reading at \<open>ExpNow\<close>. The
  drift of a clock is the number of whole seconds the second of the expiry reading is
  ahead of the second of the issue reading; a clock that stands still has none.
\<close>

definition issued_second :: "clock \<Rightarrow> int" where
  "issued_second clk =
     (if clk IatNow div 1000 = 0 then clk SignClock div 1000 else clk IatNow div 1000)"

definition clock_drift :: "clock \<Rightarrow> int" where
  "clock_drift clk = clk ExpNow div 1000 - issued_second clk"

subsection \<open>A worked example\<close>

text \<open>
  A provider with the secret \<open>s3cret\<close>, a keyed hash that only serves to compute
  examples, and a manager with a callback registered.
\<close>

definition example_mac :: mac where
  "example_mac a secret secured_input = length secret + length secured_input"

definition example_provider :: StreamTokenProvider where
  "example_provider = \<lparr>apiKey = ''key'', apiSecret = ''s3cret''\<rparr>"

definition example_manager :: "unit TokenManager" where
  "example_manager = setRefreshCallback (newTokenManager example_provider) ()"

text \<open>The credential minted for \<open>alice\<close> at time 0 with the default validity of 3600 seconds.\<close>

definition example_token :: TokenInfo where
  "example_token =
     \<lparr>token = jws_sign example_mac HS256
                \<lparr>user_id = Some ''alice'', iat = Some 0, exp = Some 3600, nbf = None\<rparr> ''s3cret'',
      expiresAt = 3600000,
      userId = ''alice''\<rparr>"

text \<open>The example manager holding that credential.\<close>

definition example_cached :: "unit TokenManager" where
  "example_cached = example_manager\<lparr>currentToken := Some example_token\<rparr>"

text \<open>
  Two clocks that move on by one millisecond, from 1999 to 2000, during a call of
  \<open>generateUserToken\<close>: the first just before the last reading (of \<open>expiresAt\<close>),
  the second between the readings for \<open>iat\<close> and \<open>exp\<close>.
\<close>

definition late_tick :: clock where
  "late_tick r = (if r = ExpiresAtNow then 2000 else 1999)"

definition early_tick :: clock where
  "early_tick r = (if r = IatNow then 1999 else 2000)"

section \<open>Properties of the token format\<close>

lemma alphabet_length: "length b64url_alphabet = 64"
  by (simp add: b64url_alphabet_def)

lemma alphabet_distinct: "distinct b64url_alphabet"
  by (simp add: b64url_alphabet_def)

lemma char_sextet_sextet_char: "n < 64 \<Longrightarrow> char_sextet (sextet_char n) = Some n"
proof -
  assume n: "n < 64"
  have "map_of (zip b64url_alphabet [0..<64]) (b64url_alphabet ! n) = Some ([0..<64] ! n)"
    using n by (intro map_of_zip_nth) (simp_all add: alphabet_length alphabet_distinct)
  then show ?thesis using n by (simp add: char_sextet_def sextet_char_def)
qed

lemma char_sextet_dot: "char_sextet CHR ''.'' = None"
  by (simp add: char_sextet_def b64url_alphabet_def)

lemma decode_encode_segment:
  "list_all (\<lambda>n. n < 64) ns \<Longrightarrow> decode_segment (encode_segment ns) = Some ns"
  by (induction ns) (simp_all add: encode_segment_def char_sextet_sextet_char)

lemma is_b64url_encode_segment:
  "list_all (\<lambda>n. n < 64) ns \<Longrightarrow> is_b64url (encode_segment ns)"
  by (induction ns) (simp_all add: encode_segment_def is_b64url_def char_sextet_sextet_char)

lemma is_b64url_no_dot: "is_b64url s \<Longrightarrow> CHR ''.'' \<notin> set s"
  by (induction s) (auto simp: is_b64url_def char_sextet_dot)

lemma encode_segment_empty: "encode_segment ns = [] \<longleftrightarrow> ns = []"
  by (simp add: encode_segment_def)

lemma enc_nat_bound: "list_all (\<lambda>d. d < 64) (enc_nat n)"
  by (induction n rule: enc_nat.induct) (simp del: enc_nat.simps add: enc_nat.simps [of n for n])

lemma dec_enc_nat: "dec_nat (enc_nat n @ r) = Some (n, r)"
proof (induction n rule: enc_nat.induct)
  case (1 n)
  show ?case
  proof (cases "n < 32")
    case True
    then show ?thesis by simp
  next
    case False
    then have "dec_nat (enc_nat (n div 32) @ r) = Some (n div 32, r)"
      using "1.IH" by simp
    with False show ?thesis
      by (subst enc_nat.simps) simp
  qed
qed

lemma dec_enc_int: "dec_int (enc_int i @ r) = Some (i, r)"
  by (simp add: enc_int_def dec_enc_nat del: enc_nat.simps)

lemma enc_int_bound: "list_all (\<lambda>d. d < 64) (enc_int i)"
  by (simp add: enc_int_def enc_nat_bound del: enc_nat.simps)

lemma dec_enc_chars: "dec_chars (length s) (enc_chars s @ r) = Some (s, r)"
  by (induction s) (simp_all add: dec_enc_nat del: enc_nat.simps)

lemma enc_chars_bound: "list_all (\<lambda>d. d < 64) (enc_chars s)"
  by (induction s) (simp_all add: enc_nat_bound del: enc_nat.simps)

lemma dec_enc_str: "dec_str (enc_str s @ r) = Some (s, r)"
  by (simp add: enc_str_def dec_str_def dec_enc_nat dec_enc_chars del: enc_nat.simps)

lemma enc_str_bound: "list_all (\<lambda>d. d < 64) (enc_str s)"
  by (simp add: enc_str_def enc_nat_bound enc_chars_bound del: enc_nat.simps)

lemma dec_enc_opt:
  assumes "\<And>x r. dec (enc x @ r) = Some (x, r)"
  shows "dec_opt dec (enc_opt enc v @ r) = Some (v, r)"
  using assms by (cases v) (simp_all add: dec_opt_def enc_opt_def)

lemma enc_opt_bound:
  assumes "\<And>x. list_all (\<lambda>d. d < 64) (enc x)"
  shows "list_all (\<lambda>d. d < (64::nat)) (enc_opt enc v)"
  using assms by (cases v) (simp_all add: enc_opt_def)

lemma parse_enc_payload: "parse_payload (enc_payload p) = Some p"
proof -
  have u: "dec_opt dec_str (enc_opt enc_str v @ r) = Some (v, r)" for v r
    by (rule dec_enc_opt) (rule dec_enc_str)
  have i: "dec_opt dec_int (enc_opt enc_int v @ r) = Some (v, r)" for v r
    by (rule dec_enc_opt) (rule dec_enc_int)
  have i': "dec_opt dec_int (enc_opt enc_int v) = Some (v, [])" for v
    using i [of v "[]"] by simp
  show ?thesis
    by (simp add: parse_payload_def enc_payload_def u i i')
qed

lemma enc_payload_bound: "list_all (\<lambda>d. d < 64) (enc_payload p)"
  by (simp add: enc_payload_def enc_opt_bound enc_str_bound enc_int_bound)

lemma enc_payload_nonempty: "enc_payload p \<noteq> []"
  by (cases "user_id p") (simp_all add: enc_payload_def enc_opt_def)

lemma decode_encode_payload: "decode_payload (encode_segment (enc_payload p)) = p"
  by (simp add: decode_payload_def decode_encode_segment enc_payload_bound parse_enc_payload)

lemma enc_header_bound: "list_all (\<lambda>d. d < 64) (enc_header a)"
  by (cases a) (simp_all add: enc_header_def)

lemma enc_header_nonempty: "enc_header a \<noteq> []"
  by (cases a) (simp_all add: enc_header_def)

lemma decode_encode_header: "decode_header (encode_segment (enc_header a)) = Some a"
  by (cases a) (simp_all add: decode_header_def enc_header_def decode_encode_segment)

section \<open>Properties of splitting\<close>

lemma split_on_nonempty: "split_on sep t \<noteq> []"
  by (induction t) (auto split: list.splits)

lemma split_on_no_sep: "sep \<notin> set s \<Longrightarrow> split_on sep s = [s]"
  by (induction s) auto

lemma split_on_append:
  "sep \<notin> set a \<Longrightarrow> split_on sep (a @ sep # b) = a # split_on sep b"
  by (induction a) auto

lemma split_on_three:
  "sep \<notin> set a \<Longrightarrow> sep \<notin> set b \<Longrightarrow> sep \<notin> set c \<Longrightarrow>
   split_on sep (a @ sep # b @ sep # c) = [a, b, c]"
  by (simp add: split_on_append split_on_no_sep)

lemma split_on_ConsD:
  "split_on sep t = a # b # rest \<Longrightarrow>
   \<exists>t'. t = a @ sep # t' \<and> sep \<notin> set a \<and> split_on sep t' = b # rest"
proof (induction t arbitrary: a)
  case Nil
  then show ?case by simp
next
  case (Cons c t)
  show ?case
  proof (cases "c = sep")
    case True
    with Cons.prems show ?thesis by simp
  next
    case False
    with Cons.prems obtain a' where a: "a = c # a'" and rest: "split_on sep t = a' # b # rest"
      by (auto split: list.splits)
    from Cons.IH [OF rest] obtain t' where "t = a' @ sep # t'" "sep \<notin> set a'"
      "split_on sep t' = b # rest"
      by blast
    with a False show ?thesis by auto
  qed
qed

lemma split_on_singleD: "split_on sep t = [a] \<Longrightarrow> t = a \<and> sep \<notin> set a"
proof (induction t arbitrary: a)
  case Nil
  then show ?case by simp
next
  case (Cons c t)
  then show ?case
    using split_on_nonempty [of sep t] by (cases "c = sep") (auto split: list.splits)
qed

lemma split_on_threeD:
  assumes "split_on sep t = [h, p, s]"
  shows "t = h @ sep # p @ sep # s" and "sep \<notin> set h" and "sep \<notin> set p" and "sep \<notin> set s"
proof -
  from split_on_ConsD [OF assms] obtain t1
    where t: "t = h @ sep # t1" and h: "sep \<notin> set h" and r1: "split_on sep t1 = [p, s]"
    by blast
  from split_on_ConsD [OF r1] obtain t2
    where t1: "t1 = p @ sep # t2" and p: "sep \<notin> set p" and r2: "split_on sep t2 = [s]"
    by blast
  from split_on_singleD [OF r2] have t2: "t2 = s" and s: "sep \<notin> set s"
    by simp_all
  show "t = h @ sep # p @ sep # s" using t t1 t2 by simp
  show "sep \<notin> set h" by (rule h)
  show "sep \<notin> set p" by (rule p)
  show "sep \<notin> set s" by (rule s)
qed

lemma split_on_two_parts: "sep \<in> set t \<Longrightarrow> \<exists>a b rest. split_on sep t = a # b # rest"
proof (induction t)
  case Nil
  then show ?case by simp
next
  case (Cons c t)
  show ?case
  proof (cases "c = sep")
    case True
    then show ?thesis using split_on_nonempty [of sep t] by (cases "split_on sep t") auto
  next
    case False
    with Cons obtain a b rest where "split_on sep t = a # b # rest" by auto
    with False show ?thesis by simp
  qed
qed

section \<open>Properties of signing and verification\<close>

lemma jws_signature_b64url: "is_b64url (jws_signature H a secret x)"
  unfolding jws_signature_def by (rule is_b64url_encode_segment) (rule enc_nat_bound)

lemma jws_signature_nonempty: "jws_signature H a secret x \<noteq> []"
  unfolding jws_signature_def encode_segment_def by (subst enc_nat.simps) simp

lemma split_on_jws_sign:
  "split_on CHR ''.'' (jws_sign H a p secret) =
     [encode_segment (enc_header a), encode_segment (enc_payload p),
      jws_signature H a secret
        (encode_segment (enc_header a) @ ''.'' @ encode_segment (enc_payload p))]"
proof -
  have "CHR ''.'' \<notin> set (encode_segment (enc_header a))"
    by (intro is_b64url_no_dot is_b64url_encode_segment enc_header_bound)
  moreover have "CHR ''.'' \<notin> set (encode_segment (enc_payload p))"
    by (intro is_b64url_no_dot is_b64url_encode_segment enc_payload_bound)
  moreover have "CHR ''.'' \<notin> set (jws_signature H a secret x)" for x
    by (intro is_b64url_no_dot jws_signature_b64url)
  ultimately show ?thesis
    using split_on_three [of "CHR ''.''" "encode_segment (enc_header a)"
        "encode_segment (enc_payload p)"]
    by (simp add: jws_sign_def Let_def)
qed

lemma jws_decode_jws_sign:
  "jws_decode (jws_sign H a p secret) =
     Some (a, p, jws_signature H a secret
        (encode_segment (enc_header a) @ ''.'' @ encode_segment (enc_payload p)))"
  by (simp add: jws_decode_def split_on_jws_sign is_b64url_encode_segment enc_header_bound
      enc_payload_bound jws_signature_b64url decode_encode_header decode_encode_payload
      encode_segment_empty enc_header_nonempty enc_payload_nonempty)

lemma jwt_decode_jws_sign: "jwt_decode (jws_sign H a p secret) = Some p"
  by (simp add: jwt_decode_def jws_decode_jws_sign)

lemma jws_sign_nonempty: "jws_sign H a p secret \<noteq> []"
  by (simp add: jws_sign_def Let_def)

lemma jwt_verify_jws_sign:
  "secret \<noteq> [] \<Longrightarrow> a \<noteq> NotHS \<Longrightarrow>
   jwt_verify H (jws_sign H a p secret) secret now = check_times p (now div 1000)"
  by (simp add: jwt_verify_def Let_def jws_sign_nonempty split_on_jws_sign jws_decode_jws_sign
      jws_signature_nonempty)

lemma jwt_verify_InrD:
  assumes "jwt_verify H tok secret now = Inr payload"
  obtains h p s a where "split_on CHR ''.'' tok = [h, p, s]"
    and "is_b64url h" and "is_b64url p" and "decode_header h = Some a" and "a \<noteq> NotHS"
    and "secret \<noteq> []" and "s \<noteq> []" and "s = jws_signature H a secret (h @ ''.'' @ p)"
    and "check_times (decode_payload p) (now div 1000) = Inr payload"
  using assms
  by (auto simp: jwt_verify_def jws_decode_def Let_def
      split: list.splits option.splits if_splits)

lemma jwt_verify_more_parts:
  assumes "CHR ''.'' \<notin> set h" and "CHR ''.'' \<notin> set p" and "CHR ''.'' \<in> set s"
  shows "jwt_verify H (h @ ''.'' @ p @ ''.'' @ s) secret now = Inl JwtMalformed"
proof -
  from split_on_two_parts [OF assms(3)] obtain a b rest
    where "split_on CHR ''.'' s = a # b # rest" by blast
  then have "split_on CHR ''.'' (h @ ''.'' @ p @ ''.'' @ s) = h # p # a # b # rest"
    using assms(1,2) by (simp add: split_on_append)
  then show ?thesis
    by (simp add: jwt_verify_def)
qed

lemma jwt_verify_other_signature:
  assumes "CHR ''.'' \<notin> set h" and "CHR ''.'' \<notin> set p"
    and "decode_header h = Some a"
    and "s \<noteq> jws_signature H a secret (h @ ''.'' @ p)"
  shows "\<exists>e. jwt_verify H (h @ ''.'' @ p @ ''.'' @ s) secret now = Inl e"
proof (cases "CHR ''.'' \<in> set s")
  case True
  with assms(1,2) show ?thesis
    using jwt_verify_more_parts [of h p s H secret now] by simp
next
  case False
  then have "split_on CHR ''.'' (h @ ''.'' @ p @ ''.'' @ s) = [h, p, s]"
    using assms(1,2) split_on_three [of "CHR ''.''" h p s] by simp
  then show ?thesis
    using assms(3,4)
    by (auto simp: jwt_verify_def jws_decode_def Let_def split: option.splits)
qed

lemma garbage_verify: "jwt_verify H ''garbage'' secret now = Inl JwtMalformed"
  by (simp add: jwt_verify_def)

section \<open>Seconds and milliseconds\<close>

lemma before_expiry: "0 < v \<Longrightarrow> (t::int) \<le> (t div 1000 + v) * 1000"
proof -
  assume "0 < v"
  have "t = 1000 * (t div 1000) + t mod 1000" by simp
  moreover have "t mod 1000 < 1000" by simp
  ultimately show ?thesis using \<open>0 < v\<close> by (simp add: algebra_simps)
qed

lemma before_expiry_second: "t div 1000 < e \<Longrightarrow> (t::int) \<le> e * 1000"
proof -
  assume "t div 1000 < e"
  have "t = 1000 * (t div 1000) + t mod 1000" by simp
  moreover have "t mod 1000 < 1000" by simp
  ultimately show ?thesis using \<open>t div 1000 < e\<close> by (simp add: algebra_simps)
qed

lemma past_refresh_lead:
  "300 < v \<Longrightarrow> \<not> ((t div 1000 + v) * 1000 - 5 * 60 * 1000 \<le> (t::int))"
proof -
  assume "300 < v"
  have "t = 1000 * (t div 1000) + t mod 1000" by simp
  moreover have "t mod 1000 < 1000" by simp
  ultimately show ?thesis using \<open>300 < v\<close> by (simp add: algebra_simps)
qed

lemma seconds_ge_iff: "(k * 1000 \<le> (t::int)) \<longleftrightarrow> (k \<le> t div 1000)"
proof -
  have "t = 1000 * (t div 1000) + t mod 1000" by simp
  moreover have "0 \<le> t mod 1000" "t mod 1000 < 1000" by simp_all
  ultimately show ?thesis by (smt (verit) mult.commute)
qed

section \<open>Properties of the provider\<close>

lemma generateUserToken_signed:
  assumes "apiSecret P \<noteq> []"
  shows "generateUserToken H P uid validity clk =
           Inr \<lparr>token = jws_sign H HS256
                          \<lparr>user_id = Some uid,
                           iat = Some (issued_second clk),
                           exp = Some (clk ExpNow div 1000
                                        + (case validity of None \<Rightarrow> 3600 | Some v \<Rightarrow> v)),
                           nbf = None\<rparr> (apiSecret P),
                expiresAt = clk ExpiresAtNow
                              + (case validity of None \<Rightarrow> 3600 | Some v \<Rightarrow> v) * 1000,
                userId = uid\<rparr>"
  using assms by (simp add: generateUserToken_def jwt_sign_def issued_second_def Let_def)

lemma generateUserToken_no_secret:
  "apiSecret P = [] \<Longrightarrow> generateUserToken H P uid validity clk = Inl SecretMustHaveValue"
  by (simp add: generateUserToken_def jwt_sign_def Let_def)

lemma generateUserToken_InrD:
  assumes "generateUserToken H P uid validity clk = Inr ti"
  shows "apiSecret P \<noteq> []"
    and "token ti = jws_sign H HS256
           \<lparr>user_id = Some uid, iat = Some (issued_second clk),
            exp = Some (clk ExpNow div 1000 + (case validity of None \<Rightarrow> 3600 | Some v \<Rightarrow> v)),
            nbf = None\<rparr> (apiSecret P)"
proof -
  show ne: "apiSecret P \<noteq> []"
    using assms generateUserToken_no_secret [of P H uid validity clk] by auto
  show "token ti = jws_sign H HS256
           \<lparr>user_id = Some uid, iat = Some (issued_second clk),
            exp = Some (clk ExpNow div 1000 + (case validity of None \<Rightarrow> 3600 | Some v \<Rightarrow> v)),
            nbf = None\<rparr> (apiSecret P)"
    using assms generateUserToken_signed [OF ne, of H uid validity clk] by auto
qed

lemma validateToken_signed:
  assumes "secret \<noteq> []" and "apiSecret P = secret"
    and "nbf p = None" and "exp p = Some e"
  shows "validateToken H P (jws_sign H HS256 p secret) clk =
           Inr (clk VerifyClock div 1000 < e \<and> \<not> (e \<noteq> 0 \<and> e * 1000 < clk DateNow))"
  using assms
  by (simp add: validateToken_def try_catch_def jwt_verify_jws_sign check_times_def)

lemma validateToken_signed_at:
  assumes "secret \<noteq> []" and "apiSecret P = secret"
    and "nbf p = None" and "exp p = Some e"
  shows "validateToken H P (jws_sign H HS256 p secret) (frozen t) = Inr (t div 1000 < e)"
proof (cases "t div 1000 < e")
  case True
  then have "t \<le> e * 1000" by (rule before_expiry_second)
  with True show ?thesis
    using validateToken_signed [OF assms, of H "frozen t"] by (simp add: frozen_def)
next
  case False
  then show ?thesis
    using validateToken_signed [OF assms, of H "frozen t"] by (simp add: frozen_def)
qed

lemma validateToken_TrueD:
  "validateToken H P tok clk = Inr True \<Longrightarrow>
   \<exists>payload. jwt_verify H tok (apiSecret P) (clk VerifyClock) = Inr payload"
  by (cases "jwt_verify H tok (apiSecret P) (clk VerifyClock)")
    (auto simp: validateToken_def try_catch_def)

lemma isTokenExpiringSoon_signed:
  assumes "secret \<noteq> []" and "apiSecret P = secret"
    and "nbf p = None" and "exp p = Some e"
  shows "isTokenExpiringSoon H P (jws_sign H HS256 p secret) minutes clk =
           Inr (clk VerifyClock div 1000 < e \<longrightarrow>
                  e \<noteq> 0 \<and> e * 1000 - (case minutes of None \<Rightarrow> 5 | Some m \<Rightarrow> m) * 60 * 1000
                              \<le> clk DateNow)"
  using assms
  by (simp add: isTokenExpiringSoon_def try_catch_def jwt_verify_jws_sign check_times_def Let_def)

lemma isTokenExpiringSoon_total: "\<exists>b. isTokenExpiringSoon H P tok minutes clk = Inr b"
  by (auto simp: isTokenExpiringSoon_def try_catch_def Let_def split: sum.splits option.splits)

lemma isTokenExpiringSoon_False_secret:
  assumes "isTokenExpiringSoon H P tok minutes clk = Inr False"
  shows "apiSecret P \<noteq> []"
proof -
  obtain payload where "jwt_verify H tok (apiSecret P) (clk VerifyClock) = Inr payload"
    using assms
    by (cases "jwt_verify H tok (apiSecret P) (clk VerifyClock)")
      (auto simp: isTokenExpiringSoon_def try_catch_def Let_def)
  then show ?thesis by (rule jwt_verify_InrD)
qed

lemma clock_drift_frozen: "clock_drift (frozen now) = 0"
  by (simp add: clock_drift_def issued_second_def frozen_def)

section \<open>Properties of the manager\<close>

lemma needsRefresh_total: "\<exists>b. needsRefresh H M uid clk = Inr b"
  using isTokenExpiringSoon_total [of H "tokenProvider M" _ None clk]
  by (auto simp: needsRefresh_def split: option.splits)

lemma needsRefresh_empty: "currentToken M = None \<Longrightarrow> needsRefresh H M uid clk = Inr True"
  by (simp add: needsRefresh_def)

lemma needsRefresh_other:
  "currentToken M = Some cur \<Longrightarrow> userId cur \<noteq> uid \<Longrightarrow> needsRefresh H M uid clk = Inr True"
  by (simp add: needsRefresh_def)

lemma needsRefresh_same:
  "currentToken M = Some cur \<Longrightarrow> userId cur = uid \<Longrightarrow>
   needsRefresh H M uid clk = isTokenExpiringSoon H (tokenProvider M) (token cur) None clk"
  by (simp add: needsRefresh_def)

lemma getValidToken_refresh:
  assumes "needsRefresh H M uid clk = Inr True"
    and "generateUserToken H (tokenProvider M) uid validity clk = Inr fresh"
  shows "getValidToken H M uid validity clk =
           Inr (token fresh, M\<lparr>currentToken := Some fresh\<rparr>,
                (case refreshCallback M of None \<Rightarrow> [] | Some callback \<Rightarrow> [(callback, token fresh)]))"
  using assms by (simp add: getValidToken_def)

lemma getValidToken_cached:
  assumes "needsRefresh H M uid clk = Inr False" and "currentToken M = Some cur"
  shows "getValidToken H M uid validity clk = Inr (token cur, M, [])"
  using assms by (simp add: getValidToken_def)

lemma getValidToken_result:
  assumes "getValidToken H M uid validity clk = Inr (tok, M', calls)"
  shows "tokenProvider M' = tokenProvider M \<and> refreshCallback M' = refreshCallback M
       \<and> (\<exists>cur. currentToken M' = Some cur \<and> userId cur = uid \<and> token cur = tok)
       \<and> apiSecret (tokenProvider M) \<noteq> []"
proof -
  obtain b where b: "needsRefresh H M uid clk = Inr b"
    using needsRefresh_total by blast
  show ?thesis
  proof (cases b)
    case True
    have ne: "apiSecret (tokenProvider M) \<noteq> []"
      using assms b True generateUserToken_no_secret [of "tokenProvider M" H uid validity clk]
      by (auto simp: getValidToken_def)
    show ?thesis
      using assms b True generateUserToken_signed [OF ne, of H uid validity clk] ne
      by (auto simp: getValidToken_def)
  next
    case False
    then obtain cur where cur: "currentToken M = Some cur"
      using b needsRefresh_empty [of M H uid clk] by (cases "currentToken M") auto
    have same: "userId cur = uid"
      using b False cur needsRefresh_other [of M cur uid H clk] by auto
    have "isTokenExpiringSoon H (tokenProvider M) (token cur) None clk = Inr False"
      using b False cur same by (simp add: needsRefresh_same)
    then have ne: "apiSecret (tokenProvider M) \<noteq> []"
      by (rule isTokenExpiringSoon_False_secret)
    show ?thesis
      using assms b False cur same ne by (auto simp: getValidToken_def)
  qed
qed

lemma getValidToken_Inl:
  assumes "getValidToken H M uid validity clk = Inl e"
  shows "apiSecret (tokenProvider M) = []"
proof (rule ccontr)
  assume ne: "apiSecret (tokenProvider M) \<noteq> []"
  obtain b where b: "needsRefresh H M uid clk = Inr b"
    using needsRefresh_total by blast
  show False
  proof (cases b)
    case True
    then show False
      using assms b generateUserToken_signed [OF ne, of H uid validity clk]
      by (simp add: getValidToken_def)
  next
    case False
    then obtain cur where "currentToken M = Some cur"
      using b needsRefresh_empty [of M H uid clk] by (cases "currentToken M") auto
    then show False
      using assms b False by (simp add: getValidToken_def)
  qed
qed

lemma last_request_snoc:
  "last_request (cs @ [c]) =
     (case c of GetValidToken uid validity clk \<Rightarrow> Some uid | _ \<Rightarrow> last_request cs)"
  by (induction cs) (auto split: call.splits option.splits)

lemma run_snoc: "run H P (cs @ [c]) = perform H (run H P cs) c"
  by (simp add: run_def)

lemma run_invariant:
  "tokenProvider (fst (run H P cs)) = P
   \<and> (apiSecret P = [] \<longrightarrow> currentToken (fst (run H P cs)) = None)
   \<and> (\<forall>cur. currentToken (fst (run H P cs)) = Some cur \<longrightarrow> last_request cs = Some (userId cur))"
proof (induction cs rule: rev_induct)
  case Nil
  show ?case by (simp add: run_def newTokenManager_def)
next
  case (snoc c cs)
  obtain M invoked where st: "run H P cs = (M, invoked)"
    by (cases "run H P cs")
  from snoc st have P: "tokenProvider M = P"
    and empty: "apiSecret P = [] \<longrightarrow> currentToken M = None"
    and inv: "\<forall>cur. currentToken M = Some cur \<longrightarrow> last_request cs = Some (userId cur)"
    by simp_all
  show ?case
  proof (cases c)
    case (SetRefreshCallback callback)
    with st P empty inv show ?thesis
      by (simp add: run_snoc last_request_snoc setRefreshCallback_def)
  next
    case ClearToken
    with st P empty inv show ?thesis
      by (simp add: run_snoc last_request_snoc clearToken_def)
  next
    case (GetValidToken uid validity clk)
    show ?thesis
    proof (cases "getValidToken H M uid validity clk")
      case (Inl e)
      then have "apiSecret P = []"
        using getValidToken_Inl P by blast
      with Inl GetValidToken st P empty show ?thesis
        by (simp add: run_snoc last_request_snoc)
    next
      case (Inr r)
      obtain tok M' calls where r: "r = (tok, M', calls)"
        by (cases r)
      from getValidToken_result [of H M uid validity clk tok M' calls] Inr r
      have "tokenProvider M' = tokenProvider M"
        and "\<exists>cur. currentToken M' = Some cur \<and> userId cur = uid \<and> token cur = tok"
        and "apiSecret (tokenProvider M) \<noteq> []"
        by simp_all
      with Inr r GetValidToken st P show ?thesis
        by (auto simp: run_snoc last_request_snoc)
    qed
  qed
qed

section \<open>The worked example\<close>

lemma example_token_simps:
  "userId example_token = ''alice''"
  "apiSecret example_provider = ''s3cret''"
  by (simp_all add: example_token_def example_provider_def)

lemma example_manager_simps:
  "tokenProvider example_manager = example_provider"
  "currentToken example_manager = None"
  "refreshCallback example_manager = Some ()"
  by (simp_all add: example_manager_def setRefreshCallback_def newTokenManager_def)

lemma example_cached_simps:
  "tokenProvider example_cached = example_provider"
  "currentToken example_cached = Some example_token"
  "refreshCallback example_cached = Some ()"
  by (simp_all add: example_cached_def example_manager_simps)

lemma example_token_minted:
  "generateUserToken example_mac example_provider ''alice'' validity (frozen 0) =
     Inr (example_token\<lparr>token := jws_sign example_mac HS256
                \<lparr>user_id = Some ''alice'', iat = Some 0,
                 exp = Some (case validity of None \<Rightarrow> 3600 | Some v \<Rightarrow> v), nbf = None\<rparr> ''s3cret'',
              expiresAt := (case validity of None \<Rightarrow> 3600 | Some v \<Rightarrow> v) * 1000\<rparr>)"
  using generateUserToken_signed [of example_provider example_mac "''alice''" validity "frozen 0"]
  by (simp add: example_provider_def example_token_def issued_second_def frozen_def)

lemma example_token_verify:
  "jwt_verify example_mac (token example_token) ''s3cret'' now =
     check_times \<lparr>user_id = Some ''alice'', iat = Some 0, exp = Some 3600, nbf = None\<rparr> (now div 1000)"
  by (simp add: example_token_def jwt_verify_jws_sign)

lemma example_token_string: "token example_token = ''A.BFhDsDpDjDlDBAABAwwDA.d''"
  by code_simp

lemma example_first_call:
  assumes "validity = None \<or> validity = Some 3600"
  shows "getValidToken example_mac example_manager ''alice'' validity (frozen 0) =
     Inr (token example_token, example_cached, [((), token example_token)])"
proof -
  have "needsRefresh example_mac example_manager ''alice'' (frozen 0) = Inr True"
    by (rule needsRefresh_empty) (rule example_manager_simps)
  moreover have "generateUserToken example_mac (tokenProvider example_manager) ''alice'' validity
      (frozen 0) = Inr example_token"
    using example_token_minted [of validity] assms
    by (auto simp: example_manager_simps example_token_def)
  ultimately show ?thesis
    using getValidToken_refresh [of example_mac example_manager "''alice''" "frozen 0" validity
        example_token]
    by (simp add: example_manager_simps example_cached_def)
qed

lemma example_not_expiring:
  "isTokenExpiringSoon example_mac example_provider (token example_token) None (frozen 1000) = Inr False"
  using isTokenExpiringSoon_signed [of "''s3cret''" example_provider
      "\<lparr>user_id = Some ''alice'', iat = Some 0, exp = Some 3600, nbf = None\<rparr>" 3600
      example_mac None "frozen 1000"]
  by (simp add: example_token_def example_token_simps frozen_def)

section \<open>The claims of the specification\<close>

text \<open>
  C1 (as the code has it). With a secret configured and a clock that stands still, two
  calls of \<open>getValidToken\<close> in succession for the same subject and validity window
  both succeed and return the same token string. When the window is longer than 300
  seconds (the lead of five minutes within which a token counts as expiring) the
  second call returns the cached credential: it leaves the manager as it is and
  invokes no callback, so the callback is invoked at most once over the two calls.
\<close>

theorem getValidToken_twice:
  assumes "apiSecret (tokenProvider M) \<noteq> []"
  shows "\<exists>tok M1 c1 M2 c2.
           getValidToken H M uid (Some v) (frozen now) = Inr (tok, M1, c1)
         \<and> getValidToken H M1 uid (Some v) (frozen now) = Inr (tok, M2, c2)
         \<and> (300 < v \<longrightarrow> M2 = M1 \<and> c2 = [] \<and> length (c1 @ c2) \<le> 1)"
proof -
  let ?P = "tokenProvider M"
  let ?clk = "frozen now"
  let ?e = "now div 1000 + v"
  let ?p = "\<lparr>user_id = Some uid, iat = Some (issued_second ?clk), exp = Some ?e, nbf = None\<rparr>"
  let ?fresh = "\<lparr>token = jws_sign H HS256 ?p (apiSecret ?P),
                 expiresAt = now + v * 1000, userId = uid\<rparr>"
  have mint: "generateUserToken H ?P uid (Some v) ?clk = Inr ?fresh"
    using generateUserToken_signed [OF assms, of H uid "Some v" ?clk] by (simp add: frozen_def)
  obtain b where b: "needsRefresh H M uid ?clk = Inr b"
    using needsRefresh_total by blast
  show ?thesis
  proof (cases b)
    case True
    let ?M1 = "M\<lparr>currentToken := Some ?fresh\<rparr>"
    let ?c1 = "case refreshCallback M of None \<Rightarrow> [] | Some callback \<Rightarrow> [(callback, token ?fresh)]"
    have first: "getValidToken H M uid (Some v) ?clk = Inr (token ?fresh, ?M1, ?c1)"
      using b True mint by (simp add: getValidToken_refresh)
    have c1: "length ?c1 \<le> 1"
      by (simp split: option.splits)
    have soon: "needsRefresh H ?M1 uid ?clk =
                  Inr (now div 1000 < ?e \<longrightarrow> ?e \<noteq> 0 \<and> ?e * 1000 - 5 * 60 * 1000 \<le> now)"
      using isTokenExpiringSoon_signed [of "apiSecret ?P" ?P ?p ?e H None ?clk] assms
      by (simp add: needsRefresh_def frozen_def)
    obtain b2 where b2: "needsRefresh H ?M1 uid ?clk = Inr b2"
      using needsRefresh_total by blast
    have long: "\<not> b2" if "300 < v"
      using soon b2 past_refresh_lead [OF that, of now] that by simp
    show ?thesis
    proof (cases b2)
      case True
      have "getValidToken H ?M1 uid (Some v) ?clk =
              Inr (token ?fresh, ?M1\<lparr>currentToken := Some ?fresh\<rparr>, ?c1)"
        using b2 True mint getValidToken_refresh [of H ?M1 uid ?clk "Some v" ?fresh] by simp
      with first True long show ?thesis by auto
    next
      case False
      have "getValidToken H ?M1 uid (Some v) ?clk = Inr (token ?fresh, ?M1, [])"
        using b2 False getValidToken_cached [of H ?M1 uid ?clk ?fresh "Some v"] by simp
      with first c1 show ?thesis by auto
    qed
  next
    case False
    then obtain cur where cur: "currentToken M = Some cur"
      using b needsRefresh_empty [of M H uid ?clk] by (cases "currentToken M") auto
    have "getValidToken H M uid (Some v) ?clk = Inr (token cur, M, [])"
      using b False cur by (simp add: getValidToken_cached)
    then show ?thesis by auto
  qed
qed

theorem getValidToken_twice_witness:
  "apiSecret (tokenProvider example_manager) \<noteq> [] \<and> (300::int) < 3600
   \<and> (\<exists>tok M1 c1.
           getValidToken example_mac example_manager ''alice'' (Some 3600) (frozen 0) = Inr (tok, M1, c1)
         \<and> getValidToken example_mac M1 ''alice'' (Some 3600) (frozen 0) = Inr (tok, M1, [])
         \<and> length c1 \<le> 1)"
proof -
  have secret: "apiSecret (tokenProvider example_manager) \<noteq> []"
    by (simp add: example_manager_def setRefreshCallback_def newTokenManager_def
        example_provider_def)
  from getValidToken_twice [OF secret, of example_mac "''alice''" 3600 0]
  show ?thesis using secret by auto
qed

text \<open>
  C1 (as stated) fails for a window of at most 300 seconds: the token minted by the
  first call is in its last five minutes at once, the second call mints again, and a
  registered callback is invoked twice. Here with a window of 10 seconds.
\<close>

theorem getValidToken_twice_short_window:
  "(0::int) < 10 \<and>
   length (snd (run example_mac example_provider
     [SetRefreshCallback (),
      GetValidToken ''alice'' (Some 10) (frozen 0),
      GetValidToken ''alice'' (Some 10) (frozen 0)])) = 2"
proof -
  let ?fresh = "example_token\<lparr>token := jws_sign example_mac HS256
                \<lparr>user_id = Some ''alice'', iat = Some 0, exp = Some 10, nbf = None\<rparr> ''s3cret'',
              expiresAt := 10 * 1000\<rparr>"
  let ?M1 = "example_manager\<lparr>currentToken := Some ?fresh\<rparr>"
  have mint: "generateUserToken example_mac example_provider ''alice'' (Some 10) (frozen 0) = Inr ?fresh"
    using example_token_minted [of "Some 10"] by simp
  have prov: "tokenProvider example_manager = example_provider" "tokenProvider ?M1 = example_provider"
    by (simp_all add: example_manager_def setRefreshCallback_def newTokenManager_def)
  have cb: "refreshCallback example_manager = Some ()" "refreshCallback ?M1 = Some ()"
    by (simp_all add: example_manager_def setRefreshCallback_def newTokenManager_def)
  have "needsRefresh example_mac example_manager ''alice'' (frozen 0) = Inr True"
    by (rule needsRefresh_empty)
      (simp add: example_manager_def setRefreshCallback_def newTokenManager_def)
  then have first: "getValidToken example_mac example_manager ''alice'' (Some 10) (frozen 0) =
                Inr (token ?fresh, ?M1, [((), token ?fresh)])"
    using getValidToken_refresh [of example_mac example_manager "''alice''" "frozen 0" "Some 10" ?fresh]
      mint prov cb by simp
  have "needsRefresh example_mac ?M1 ''alice'' (frozen 0) = Inr True"
    using isTokenExpiringSoon_signed [of "''s3cret''" example_provider
        "\<lparr>user_id = Some ''alice'', iat = Some 0, exp = Some 10, nbf = None\<rparr>" 10
        example_mac None "frozen 0"]
    by (simp add: needsRefresh_def prov example_token_def example_provider_def frozen_def)
  then have second: "getValidToken example_mac ?M1 ''alice'' (Some 10) (frozen 0) =
                Inr (token ?fresh, ?M1\<lparr>currentToken := Some ?fresh\<rparr>, [((), token ?fresh)])"
    using getValidToken_refresh [of example_mac ?M1 "''alice''" "frozen 0" "Some 10" ?fresh]
      mint prov cb by simp
  show ?thesis
    using first second
    by (simp add: run_def example_manager_def [symmetric])
qed

text \<open>
  C2 (as the code has it). With a secret configured and a positive validity window
  \<open>v\<close>, \<open>generateUserToken\<close> returns a token whose payload names the subject and
  whose \<open>exp\<close> minus \<open>iat\<close> is \<open>v\<close> plus the drift of the clock between the two
  readings (none when the clock stands still or both readings fall in one second).
  Its \<open>exp\<close> is the second of the expiry reading plus \<open>v\<close>, and \<open>validateToken\<close>
  accepts the token at exactly the moments whose second is before \<open>exp\<close>: at the
  expiry reading, and at the moment the token is returned unless the clock has reached
  the second \<open>exp\<close> by then. For a clock that reads differently inside
  \<open>validateToken\<close> the result is given as well.
\<close>

theorem generateUserToken_fresh_valid:
  assumes "apiSecret P \<noteq> []" and "0 < v"
  shows "\<exists>ti p i e. generateUserToken H P uid (Some v) clk = Inr ti
           \<and> jwt_decode (token ti) = Some p \<and> user_id p = Some uid
           \<and> iat p = Some i \<and> exp p = Some e \<and> e - i = v + clock_drift clk
           \<and> e = clk ExpNow div 1000 + v
           \<and> (\<forall>clk'. validateToken H P (token ti) clk'
                  = Inr (clk' VerifyClock div 1000 < e \<and> \<not> (e \<noteq> 0 \<and> e * 1000 < clk' DateNow)))
           \<and> (\<forall>t. validateToken H P (token ti) (frozen t) = Inr (t div 1000 < e))
           \<and> validateToken H P (token ti) (frozen (clk ExpNow)) = Inr True"
proof -
  let ?e = "clk ExpNow div 1000 + v"
  let ?p = "\<lparr>user_id = Some uid, iat = Some (issued_second clk), exp = Some ?e, nbf = None\<rparr>"
  let ?ti = "\<lparr>token = jws_sign H HS256 ?p (apiSecret P),
              expiresAt = clk ExpiresAtNow + v * 1000, userId = uid\<rparr>"
  have mint: "generateUserToken H P uid (Some v) clk = Inr ?ti"
    using generateUserToken_signed [OF assms(1), of H uid "Some v" clk] by simp
  have dec: "jwt_decode (token ?ti) = Some ?p"
    by (simp add: jwt_decode_jws_sign)
  have diff: "?e - issued_second clk = v + clock_drift clk"
    by (simp add: clock_drift_def)
  have char: "validateToken H P (token ?ti) clk'
      = Inr (clk' VerifyClock div 1000 < ?e \<and> \<not> (?e \<noteq> 0 \<and> ?e * 1000 < clk' DateNow))" for clk'
    using assms(1) validateToken_signed [of "apiSecret P" P ?p ?e H clk'] by simp
  have at: "validateToken H P (token ?ti) (frozen t) = Inr (t div 1000 < ?e)" for t
    using assms(1) validateToken_signed_at [of "apiSecret P" P ?p ?e H t] by simp
  have now: "validateToken H P (token ?ti) (frozen (clk ExpNow)) = Inr True"
    using at [of "clk ExpNow"] assms(2) by simp
  from mint dec diff char at now show ?thesis
    by (intro exI [of _ ?ti] exI [of _ ?p] exI [of _ "issued_second clk"] exI [of _ ?e]) simp
qed

theorem generateUserToken_fresh_valid_witness:
  "apiSecret example_provider \<noteq> [] \<and> (0::int) < 10
   \<and> (\<exists>ti p i e. generateUserToken example_mac example_provider ''alice'' (Some 10) (frozen 0) = Inr ti
           \<and> jwt_decode (token ti) = Some p \<and> user_id p = Some ''alice''
           \<and> iat p = Some i \<and> exp p = Some e \<and> e - i = 10 \<and> e = 10
           \<and> validateToken example_mac example_provider (token ti) (frozen 0) = Inr True
           \<and> validateToken example_mac example_provider (token ti) (frozen 9999) = Inr True
           \<and> validateToken example_mac example_provider (token ti) (frozen 10000) = Inr False)"
proof -
  have h: "apiSecret example_provider \<noteq> []" by (simp add: example_token_simps)
  have z: "(0::int) < 10" by simp
  from generateUserToken_fresh_valid [OF h z, of example_mac "''alice''" "frozen 0"]
  obtain ti p i e
    where m: "generateUserToken example_mac example_provider ''alice'' (Some 10) (frozen 0) = Inr ti"
      and d: "jwt_decode (token ti) = Some p" and u: "user_id p = Some ''alice''"
      and i: "iat p = Some i" and e: "exp p = Some e"
      and diff: "e - i = 10 + clock_drift (frozen 0)"
      and ev: "e = frozen 0 ExpNow div 1000 + 10"
      and at: "\<forall>t. validateToken example_mac example_provider (token ti) (frozen t)
                  = Inr (t div 1000 < e)"
    by blast
  from ev have e10: "e = 10" by (simp add: frozen_def)
  from diff have d10: "e - i = 10" by (simp add: clock_drift_frozen)
  from at e10 have v0: "validateToken example_mac example_provider (token ti) (frozen 0) = Inr True"
    and v1: "validateToken example_mac example_provider (token ti) (frozen 9999) = Inr True"
    and v2: "validateToken example_mac example_provider (token ti) (frozen 10000) = Inr False"
    by simp_all
  from h z m d u i e d10 e10 v0 v1 v2 show ?thesis by blast
qed

text \<open>
  C2 (as stated) fails when the clock reaches the second of expiry before the token is
  returned. With a window of one second, the readings for \<open>iat\<close> and \<open>exp\<close> at 1999
  and the last reading of the call at 2000, the token expires at second 2 and
  \<open>validateToken\<close> rejects it at 2000.
\<close>

theorem generateUserToken_expired_on_return:
  "(0::int) < 1
   \<and> generateUserToken example_mac example_provider ''alice'' (Some 1) late_tick
       = Inr \<lparr>token = jws_sign example_mac HS256
                         \<lparr>user_id = Some ''alice'', iat = Some 1, exp = Some 2, nbf = None\<rparr>
                         ''s3cret'',
              expiresAt = 3000, userId = ''alice''\<rparr>
   \<and> late_tick ExpiresAtNow = 2000
   \<and> validateToken example_mac example_provider
        (jws_sign example_mac HS256
           \<lparr>user_id = Some ''alice'', iat = Some 1, exp = Some 2, nbf = None\<rparr> ''s3cret'')
        (frozen 2000) = Inr False"
proof -
  have mint: "generateUserToken example_mac example_provider ''alice'' (Some 1) late_tick
       = Inr \<lparr>token = jws_sign example_mac HS256
                         \<lparr>user_id = Some ''alice'', iat = Some 1, exp = Some 2, nbf = None\<rparr>
                         ''s3cret'',
              expiresAt = 3000, userId = ''alice''\<rparr>"
    using generateUserToken_signed [of example_provider example_mac "''alice''" "Some 1" late_tick]
    by (simp add: example_token_simps issued_second_def late_tick_def)
  have invalid: "validateToken example_mac example_provider
        (jws_sign example_mac HS256
           \<lparr>user_id = Some ''alice'', iat = Some 1, exp = Some 2, nbf = None\<rparr> ''s3cret'')
        (frozen 2000) = Inr False"
    using validateToken_signed_at [of "''s3cret''" example_provider
        "\<lparr>user_id = Some ''alice'', iat = Some 1, exp = Some 2, nbf = None\<rparr>" 2 example_mac 2000]
    by (simp add: example_token_simps)
  from mint invalid show ?thesis by (simp add: late_tick_def)
qed

text \<open>
  C3. After any sequence of calls on a new manager, a cached credential belongs to the
  subject of the most recent \<open>getValidToken\<close> call. And a call of \<open>getValidToken\<close> for
  a subject other than the cached one, with a secret configured, mints a credential
  for the new subject whatever the cached credential's remaining lifetime, returns
  its token, stores it in place of the cached one and invokes the callback with it.
\<close>

theorem cached_subject_is_last_request:
  "(\<forall>cur. currentToken (fst (run H P (calls :: 'cb call list))) = Some cur
        \<longrightarrow> last_request calls = Some (userId cur))
   \<and> (\<forall>(M :: 'cb TokenManager) cur uid validity clk.
        currentToken M = Some cur \<and> userId cur \<noteq> uid \<and> apiSecret (tokenProvider M) \<noteq> []
        \<longrightarrow> (\<exists>fresh. generateUserToken H (tokenProvider M) uid validity clk = Inr fresh
                \<and> userId fresh = uid
                \<and> getValidToken H M uid validity clk =
                    Inr (token fresh, M\<lparr>currentToken := Some fresh\<rparr>,
                         (case refreshCallback M of
                            None \<Rightarrow> []
                          | Some callback \<Rightarrow> [(callback, token fresh)]))))"
proof -
  have inv: "last_request calls = Some (userId cur)"
    if "currentToken (fst (run H P calls)) = Some cur" for cur
    using that run_invariant [of H P calls] by simp
  have switch: "\<exists>fresh. generateUserToken H (tokenProvider M) uid validity clk = Inr fresh
                \<and> userId fresh = uid
                \<and> getValidToken H M uid validity clk =
                    Inr (token fresh, M\<lparr>currentToken := Some fresh\<rparr>,
                         (case refreshCallback M of
                            None \<Rightarrow> []
                          | Some callback \<Rightarrow> [(callback, token fresh)]))"
    if a: "currentToken M = Some cur \<and> userId cur \<noteq> uid \<and> apiSecret (tokenProvider M) \<noteq> []"
    for M :: "'cb TokenManager" and cur uid validity clk
  proof -
    from a have refresh: "needsRefresh H M uid clk = Inr True"
      by (simp add: needsRefresh_other)
    from a obtain fresh
      where fresh: "generateUserToken H (tokenProvider M) uid validity clk = Inr fresh"
        and uid: "userId fresh = uid"
      using generateUserToken_signed [of "tokenProvider M" H uid validity clk] by simp
    from getValidToken_refresh [OF refresh fresh] fresh uid show ?thesis
      by blast
  qed
  from inv switch show ?thesis by blast
qed

theorem cached_subject_is_last_request_witness:
  "currentToken (fst (run example_mac example_provider
       [SetRefreshCallback (), GetValidToken ''alice'' None (frozen 0)])) = Some example_token
   \<and> last_request [SetRefreshCallback (), GetValidToken ''alice'' None (frozen 0)]
       = Some (userId example_token)
   \<and> currentToken example_cached = Some example_token
   \<and> userId example_token \<noteq> ''bob''
   \<and> apiSecret (tokenProvider example_cached) \<noteq> []
   \<and> (\<exists>fresh. generateUserToken example_mac example_provider ''bob'' (Some 60) (frozen 1000) = Inr fresh
         \<and> userId fresh = ''bob''
         \<and> getValidToken example_mac example_cached ''bob'' (Some 60) (frozen 1000) =
             Inr (token fresh, example_cached\<lparr>currentToken := Some fresh\<rparr>, [((), token fresh)]))"
proof -
  let ?calls = "[SetRefreshCallback (), GetValidToken ''alice'' None (frozen 0)]"
  have r: "currentToken (fst (run example_mac example_provider ?calls)) = Some example_token"
    using example_first_call [of None]
    by (simp add: run_def example_manager_def [symmetric] example_cached_simps)
  have h: "currentToken example_cached = Some example_token \<and> userId example_token \<noteq> ''bob''
           \<and> apiSecret (tokenProvider example_cached) \<noteq> []"
    by (simp add: example_cached_simps example_token_simps)
  note inst = cached_subject_is_last_request [of example_mac example_provider ?calls]
  from inst r have last: "last_request ?calls = Some (userId example_token)"
    by blast
  from inst h have "\<exists>fresh.
      generateUserToken example_mac (tokenProvider example_cached) ''bob'' (Some 60) (frozen 1000)
        = Inr fresh
      \<and> userId fresh = ''bob''
      \<and> getValidToken example_mac example_cached ''bob'' (Some 60) (frozen 1000) =
          Inr (token fresh, example_cached\<lparr>currentToken := Some fresh\<rparr>,
               (case refreshCallback example_cached of
                  None \<Rightarrow> []
                | Some callback \<Rightarrow> [(callback, token fresh)]))"
    by blast
  with r last h show ?thesis
    by (simp add: example_cached_simps)
qed

text \<open>
  C4 (as the code has it). The second argument of \<open>isTokenExpiringSoon\<close> is a number of
  minutes, 5 when absent. The result is true when the token fails verification, and
  when it verifies with an \<open>exp\<close> claim other than 0 and the current second is at
  least \<open>exp\<close> minus 60 times the minutes; it is false otherwise, so also when the
  verified token has no \<open>exp\<close> claim or the claim is 0. The method never throws.
\<close>

theorem isTokenExpiringSoon_minutes:
  "isTokenExpiringSoon H P tok minutes clk =
     Inr (case jwt_verify H tok (apiSecret P) (clk VerifyClock) of
            Inl failure \<Rightarrow> True
          | Inr decoded \<Rightarrow>
              (case exp decoded of
                 None \<Rightarrow> False
               | Some e \<Rightarrow>
                   e \<noteq> 0
                   \<and> clk DateNow div 1000
                       \<ge> e - 60 * (case minutes of None \<Rightarrow> 5 | Some m \<Rightarrow> m)))"
proof -
  have lead: "(e * 1000 - m * 60 * 1000 \<le> t) \<longleftrightarrow> (e - 60 * m \<le> t div 1000)"
    for e m t :: int
    using seconds_ge_iff [of "e - 60 * m" t] by (simp add: algebra_simps)
  have default: "(e * 1000 - 300000 \<le> t) \<longleftrightarrow> (e - 300 \<le> t div 1000)" for e t :: int
    using lead [of e 5 t] by simp
  show ?thesis
    using lead default
    by (cases minutes)
      (simp_all add: isTokenExpiringSoon_def try_catch_def Let_def split: sum.splits option.splits)
qed

text \<open>
  C4 (as stated) fails when the lead is passed in seconds. The example token verifies
  at time 0 and expires at second 3600; with a lead of 300 seconds it would not be
  expiring (0 is less than 3300), but \<open>isTokenExpiringSoon(token, 300)\<close> takes 300
  minutes and returns true.
\<close>

theorem isTokenExpiringSoon_lead_in_seconds:
  "jwt_verify example_mac (token example_token) (apiSecret example_provider) 0
     = Inr \<lparr>user_id = Some ''alice'', iat = Some 0, exp = Some 3600, nbf = None\<rparr>
   \<and> \<not> ((0::int) \<ge> 3600 - 300)
   \<and> isTokenExpiringSoon example_mac example_provider (token example_token) (Some 300) (frozen 0)
       = Inr True"
proof -
  have "isTokenExpiringSoon example_mac example_provider (token example_token) (Some 300) (frozen 0)
       = Inr True"
    using isTokenExpiringSoon_signed [of "''s3cret''" example_provider
      "\<lparr>user_id = Some ''alice'', iat = Some 0, exp = Some 3600, nbf = None\<rparr>" 3600
      example_mac "Some 300" "frozen 0"]
    by (simp add: example_token_def example_token_simps frozen_def)
  then show ?thesis
    by (simp add: example_token_verify example_token_simps check_times_def)
qed

text \<open>
  C5. For every string, \<open>validateToken\<close> returns a boolean and \<open>getUserFromToken\<close>
  returns an object or \<open>null\<close>; neither throws. Whenever \<open>jwt.verify\<close> throws (the
  string is malformed, the signature does not match, the token is not yet active or
  has expired) the results are \<open>false\<close> and \<open>null\<close>; when it returns the decoded
  payload, \<open>getUserFromToken\<close> returns its \<open>user_id\<close> and \<open>exp\<close>.
\<close>

theorem verification_never_throws:
  "(\<exists>b. validateToken H P tok clk = Inr b)
   \<and> (\<exists>r. getUserFromToken H P tok clk = Inr r)
   \<and> (\<forall>e. jwt_verify H tok (apiSecret P) (clk VerifyClock) = Inl e
          \<longrightarrow> validateToken H P tok clk = Inr False \<and> getUserFromToken H P tok clk = Inr None)
   \<and> (\<forall>decoded. jwt_verify H tok (apiSecret P) (clk VerifyClock) = Inr decoded
          \<longrightarrow> getUserFromToken H P tok clk = Inr (Some (user_id decoded, exp decoded)))"
  by (cases "jwt_verify H tok (apiSecret P) (clk VerifyClock)")
    (auto simp: validateToken_def getUserFromToken_def try_catch_def split: option.splits)

theorem verification_never_throws_witness:
  "jwt_verify example_mac ''garbage'' (apiSecret example_provider) 0 = Inl JwtMalformed
   \<and> validateToken example_mac example_provider ''garbage'' (frozen 0) = Inr False
   \<and> getUserFromToken example_mac example_provider ''garbage'' (frozen 0) = Inr None
   \<and> jwt_verify example_mac (token example_token) (apiSecret example_provider) 3600000 = Inl JwtExpired
   \<and> validateToken example_mac example_provider (token example_token) (frozen 3600000) = Inr False
   \<and> getUserFromToken example_mac example_provider (token example_token) (frozen 3600000) = Inr None
   \<and> jwt_verify example_mac (token example_token) (apiSecret example_provider) 0
       = Inr \<lparr>user_id = Some ''alice'', iat = Some 0, exp = Some 3600, nbf = None\<rparr>
   \<and> getUserFromToken example_mac example_provider (token example_token) (frozen 0)
       = Inr (Some (Some ''alice'', Some 3600))"
proof -
  have g: "jwt_verify example_mac ''garbage'' (apiSecret example_provider) (frozen 0 VerifyClock)
      = Inl JwtMalformed"
    by (rule garbage_verify)
  have x: "jwt_verify example_mac (token example_token) (apiSecret example_provider)
      (frozen 3600000 VerifyClock) = Inl JwtExpired"
    by (simp add: example_token_verify example_token_simps check_times_def frozen_def)
  have v: "jwt_verify example_mac (token example_token) (apiSecret example_provider)
      (frozen 0 VerifyClock) = Inr \<lparr>user_id = Some ''alice'', iat = Some 0, exp = Some 3600, nbf = None\<rparr>"
    by (simp add: example_token_verify example_token_simps check_times_def frozen_def)
  from verification_never_throws [of example_mac example_provider "''garbage''" "frozen 0"] g
  have 1: "validateToken example_mac example_provider ''garbage'' (frozen 0) = Inr False"
    "getUserFromToken example_mac example_provider ''garbage'' (frozen 0) = Inr None"
    by blast+
  from verification_never_throws [of example_mac example_provider "token example_token"
      "frozen 3600000"] x
  have 2: "validateToken example_mac example_provider (token example_token) (frozen 3600000) = Inr False"
    "getUserFromToken example_mac example_provider (token example_token) (frozen 3600000) = Inr None"
    by blast+
  from verification_never_throws [of example_mac example_provider "token example_token" "frozen 0"] v
  have 3: "getUserFromToken example_mac example_provider (token example_token) (frozen 0)
       = Inr (Some (Some ''alice'', Some 3600))"
    by simp
  from g x v 1 2 3 show ?thesis
    by (simp add: frozen_def)
qed

text \<open>
  C6. The token string is a function of the subject, the issue time, the expiry time
  and the secret: two runs of \<open>generateUserToken\<close> (any providers, arguments and
  clocks) whose secrets agree and whose tokens carry the same subject, the same
  \<open>iat\<close> and the same \<open>exp\<close> return the same token string. The API key, the
  milliseconds of the readings and the reading for \<open>expiresAt\<close> have no part in it.
\<close>

theorem minting_is_deterministic:
  assumes "generateUserToken H P1 uid1 validity1 clk1 = Inr t1"
    and "generateUserToken H P2 uid2 validity2 clk2 = Inr t2"
    and "apiSecret P1 = apiSecret P2"
    and "jwt_decode (token t1) = Some c1" and "jwt_decode (token t2) = Some c2"
    and "user_id c1 = user_id c2" and "iat c1 = iat c2" and "exp c1 = exp c2"
  shows "token t1 = token t2"
proof -
  let ?p1 = "\<lparr>user_id = Some uid1, iat = Some (issued_second clk1),
              exp = Some (clk1 ExpNow div 1000 + (case validity1 of None \<Rightarrow> 3600 | Some v \<Rightarrow> v)),
              nbf = None\<rparr>"
  let ?p2 = "\<lparr>user_id = Some uid2, iat = Some (issued_second clk2),
              exp = Some (clk2 ExpNow div 1000 + (case validity2 of None \<Rightarrow> 3600 | Some v \<Rightarrow> v)),
              nbf = None\<rparr>"
  have t1: "token t1 = jws_sign H HS256 ?p1 (apiSecret P1)"
    using assms(1) by (rule generateUserToken_InrD)
  have t2: "token t2 = jws_sign H HS256 ?p2 (apiSecret P2)"
    using assms(2) by (rule generateUserToken_InrD)
  have "c1 = ?p1" using assms(4) t1 by (simp add: jwt_decode_jws_sign)
  moreover have "c2 = ?p2" using assms(5) t2 by (simp add: jwt_decode_jws_sign)
  ultimately have "?p1 = ?p2"
    using assms(6-8) by simp
  with t1 t2 assms(3) show ?thesis by simp
qed

theorem minting_is_deterministic_witness:
  "generateUserToken example_mac example_provider ''alice'' (Some 3600) (frozen 0) = Inr example_token
   \<and> generateUserToken example_mac (example_provider\<lparr>apiKey := ''other''\<rparr>) ''alice'' None (frozen 999)
       = Inr (example_token\<lparr>expiresAt := 3600999\<rparr>)
   \<and> apiSecret example_provider = apiSecret (example_provider\<lparr>apiKey := ''other''\<rparr>)
   \<and> jwt_decode (token example_token)
       = Some \<lparr>user_id = Some ''alice'', iat = Some 0, exp = Some 3600, nbf = None\<rparr>
   \<and> token example_token = token (example_token\<lparr>expiresAt := 3600999\<rparr>)"
proof -
  let ?P2 = "example_provider\<lparr>apiKey := ''other''\<rparr>"
  let ?c = "\<lparr>user_id = Some ''alice'', iat = Some 0, exp = Some 3600, nbf = None\<rparr>"
  have m1: "generateUserToken example_mac example_provider ''alice'' (Some 3600) (frozen 0)
      = Inr example_token"
    using example_token_minted [of "Some 3600"] by (simp add: example_token_def)
  have s2: "apiSecret ?P2 = ''s3cret''"
    by (simp add: example_provider_def)
  have i2: "issued_second (frozen 999) = 0" "frozen 999 ExpNow div 1000 = 0"
    "frozen 999 ExpiresAtNow = 999"
    by (simp_all add: issued_second_def frozen_def)
  have m2: "generateUserToken example_mac ?P2 ''alice'' None (frozen 999)
      = Inr (example_token\<lparr>expiresAt := 3600999\<rparr>)"
    using generateUserToken_signed [of ?P2 example_mac "''alice''" None "frozen 999"]
    unfolding s2 i2 by (simp add: example_token_def)
  have s: "apiSecret example_provider = apiSecret ?P2" by simp
  have d1: "jwt_decode (token example_token) = Some ?c"
    by (simp add: example_token_def jwt_decode_jws_sign)
  have d2: "jwt_decode (token (example_token\<lparr>expiresAt := 3600999\<rparr>)) = Some ?c"
    by (simp add: example_token_def jwt_decode_jws_sign)
  have "token example_token = token (example_token\<lparr>expiresAt := 3600999\<rparr>)"
    by (rule minting_is_deterministic [OF m1 m2 s d1 d2]) simp_all
  with m1 m2 s d1 show ?thesis by blast
qed

text \<open>
  C7. \<open>clearToken\<close> empties the cache, changes nothing when called again, and leaves
  the callback and the provider as they are. The next \<open>getValidToken\<close>, with a secret
  configured, mints a credential and stores it, whatever was cached before the
  clearing and for every clock.
\<close>

theorem clearToken_then_mint:
  "currentToken (clearToken M) = None
   \<and> clearToken (clearToken M) = clearToken M
   \<and> refreshCallback (clearToken M) = refreshCallback M
   \<and> tokenProvider (clearToken M) = tokenProvider M
   \<and> (apiSecret (tokenProvider M) \<noteq> [] \<longrightarrow>
        (\<exists>fresh. generateUserToken H (tokenProvider M) uid validity clk = Inr fresh
           \<and> getValidToken H (clearToken M) uid validity clk =
               Inr (token fresh, M\<lparr>currentToken := Some fresh\<rparr>,
                    (case refreshCallback M of
                       None \<Rightarrow> []
                     | Some callback \<Rightarrow> [(callback, token fresh)]))))"
proof -
  have frame: "currentToken (clearToken M) = None" "clearToken (clearToken M) = clearToken M"
    "refreshCallback (clearToken M) = refreshCallback M"
    "tokenProvider (clearToken M) = tokenProvider M"
    by (simp_all add: clearToken_def)
  have refresh: "needsRefresh H (clearToken M) uid clk = Inr True"
    by (rule needsRefresh_empty) (rule frame)
  have "\<exists>fresh. generateUserToken H (tokenProvider M) uid validity clk = Inr fresh
           \<and> getValidToken H (clearToken M) uid validity clk =
               Inr (token fresh, M\<lparr>currentToken := Some fresh\<rparr>,
                    (case refreshCallback M of
                       None \<Rightarrow> []
                     | Some callback \<Rightarrow> [(callback, token fresh)]))"
    if ne: "apiSecret (tokenProvider M) \<noteq> []"
  proof -
    obtain fresh where fresh: "generateUserToken H (tokenProvider M) uid validity clk = Inr fresh"
      using generateUserToken_signed [OF ne, of H uid validity clk] by simp
    then have "generateUserToken H (tokenProvider (clearToken M)) uid validity clk = Inr fresh"
      by (simp add: frame)
    from getValidToken_refresh [OF refresh this] fresh show ?thesis
      by (simp add: frame)
  qed
  with frame show ?thesis by blast
qed

theorem clearToken_then_mint_witness:
  "apiSecret (tokenProvider example_cached) \<noteq> []
   \<and> currentToken example_cached = Some example_token
   \<and> currentToken (clearToken example_cached) = None
   \<and> (\<exists>fresh. generateUserToken example_mac example_provider ''alice'' None (frozen 1000) = Inr fresh
        \<and> getValidToken example_mac (clearToken example_cached) ''alice'' None (frozen 1000) =
             Inr (token fresh, example_cached\<lparr>currentToken := Some fresh\<rparr>, [((), token fresh)]))"
proof -
  have h: "apiSecret (tokenProvider example_cached) \<noteq> []"
    by (simp add: example_cached_simps example_token_simps)
  from clearToken_then_mint [of example_cached example_mac "''alice''" None "frozen 1000"] h
  show ?thesis
    by (simp add: example_cached_simps)
qed

text \<open>
  C8. When the cached credential belongs to the requested subject and is not judged
  expiring soon, \<open>getValidToken\<close> returns its token and leaves the manager unchanged,
  for every value of the \<open>validityInSeconds\<close> argument.
\<close>

theorem cached_token_ignores_validity:
  assumes "currentToken M = Some cur" and "userId cur = uid"
    and "isTokenExpiringSoon H (tokenProvider M) (token cur) None clk = Inr False"
  shows "getValidToken H M uid validity clk = Inr (token cur, M, [])"
proof -
  have "needsRefresh H M uid clk = Inr False"
    using assms by (simp add: needsRefresh_same)
  then show ?thesis
    using assms(1) by (rule getValidToken_cached)
qed

theorem cached_token_ignores_validity_witness:
  "currentToken example_cached = Some example_token
   \<and> userId example_token = ''alice''
   \<and> isTokenExpiringSoon example_mac (tokenProvider example_cached) (token example_token) None
        (frozen 1000) = Inr False
   \<and> getValidToken example_mac example_manager ''alice'' (Some 3600) (frozen 0)
        = Inr (token example_token, example_cached, [((), token example_token)])
   \<and> getValidToken example_mac example_cached ''alice'' (Some 60) (frozen 1000)
        = Inr (token example_token, example_cached, [])"
proof -
  have first: "getValidToken example_mac example_manager ''alice'' (Some 3600) (frozen 0)
        = Inr (token example_token, example_cached, [((), token example_token)])"
    by (rule example_first_call) simp
  have h: "isTokenExpiringSoon example_mac (tokenProvider example_cached) (token example_token) None
        (frozen 1000) = Inr False"
    using example_not_expiring by (simp add: example_cached_simps)
  from cached_token_ignores_validity [of example_cached example_token "''alice''" example_mac
      "frozen 1000" "Some 60"] h first
  show ?thesis
    by (simp add: example_cached_simps example_token_simps)
qed

text \<open>
  C9. A token that \<open>validateToken\<close> accepts consists of a header, a payload and a
  signature segment joined by dots. Replacing any one character of its signature
  segment by a different character gives a string that \<open>validateToken\<close> rejects and
  for which \<open>getUserFromToken\<close> returns \<open>null\<close>, at every time.
\<close>

theorem tampered_signature_rejected:
  assumes "validateToken H P tok clk = Inr True"
    and "split_on CHR ''.'' tok = [h, p, s]"
    and "i < length s" and "c \<noteq> s ! i"
  shows "tok = h @ ''.'' @ p @ ''.'' @ s
       \<and> validateToken H P (h @ ''.'' @ p @ ''.'' @ s[i := c]) clk' = Inr False
       \<and> getUserFromToken H P (h @ ''.'' @ p @ ''.'' @ s[i := c]) clk' = Inr None"
proof -
  from assms(1) obtain payload
    where "jwt_verify H tok (apiSecret P) (clk VerifyClock) = Inr payload"
    using validateToken_TrueD by blast
  then obtain a where a: "decode_header h = Some a"
    and sig: "s = jws_signature H a (apiSecret P) (h @ ''.'' @ p)"
    using assms(2) by (auto elim!: jwt_verify_InrD)
  have parts: "tok = h @ ''.'' @ p @ ''.'' @ s" "CHR ''.'' \<notin> set h" "CHR ''.'' \<notin> set p"
    using split_on_threeD [OF assms(2)] by simp_all
  have "s[i := c] ! i \<noteq> s ! i"
    using assms(3,4) by simp
  then have "s[i := c] \<noteq> jws_signature H a (apiSecret P) (h @ ''.'' @ p)"
    using sig by auto
  from jwt_verify_other_signature [OF parts(2,3) a this]
  obtain e where "jwt_verify H (h @ ''.'' @ p @ ''.'' @ s[i := c]) (apiSecret P) (clk' VerifyClock)
      = Inl e"
    by blast
  then show ?thesis
    using parts(1) by (simp add: validateToken_def getUserFromToken_def try_catch_def)
qed

theorem tampered_signature_rejected_witness:
  "validateToken example_mac example_provider ''A.BFhDsDpDjDlDBAABAwwDA.d'' (frozen 0) = Inr True
   \<and> split_on CHR ''.'' ''A.BFhDsDpDjDlDBAABAwwDA.d'' = [''A'', ''BFhDsDpDjDlDBAABAwwDA'', ''d'']
   \<and> (0::nat) < length ''d'' \<and> CHR ''e'' \<noteq> ''d'' ! 0
   \<and> validateToken example_mac example_provider ''A.BFhDsDpDjDlDBAABAwwDA.e'' (frozen 3000)
       = Inr False
   \<and> getUserFromToken example_mac example_provider ''A.BFhDsDpDjDlDBAABAwwDA.e'' (frozen 3000)
       = Inr None"
proof -
  have valid: "validateToken example_mac example_provider ''A.BFhDsDpDjDlDBAABAwwDA.d'' (frozen 0)
      = Inr True"
    using validateToken_signed [of "''s3cret''" example_provider
        "\<lparr>user_id = Some ''alice'', iat = Some 0, exp = Some 3600, nbf = None\<rparr>" 3600
        example_mac "frozen 0"] example_token_string
    by (simp add: example_token_def example_token_simps frozen_def)
  have parts: "split_on CHR ''.'' ''A.BFhDsDpDjDlDBAABAwwDA.d''
      = [''A'', ''BFhDsDpDjDlDBAABAwwDA'', ''d'']"
    by simp
  have pos: "(0::nat) < length ''d''" and other: "CHR ''e'' \<noteq> ''d'' ! 0"
    by simp_all
  from tampered_signature_rejected [OF valid parts pos other, of "frozen 3000"]
  show ?thesis using valid pos by simp
qed

text \<open>
  C10 (as the code has it). An absent \<open>validityInSeconds\<close> is the same as 3600. A
  given value that is zero or negative is used as it is: with a secret configured
  the call succeeds for every clock, \<open>expiresAt\<close> is the last reading plus the value
  in milliseconds, and the token's \<open>exp\<close> is the second of the expiry reading plus
  the value, so not after that second; \<open>exp\<close> minus \<open>iat\<close> is the value plus the
  drift of the clock between the two readings. \<open>validateToken\<close> accepts the token at
  exactly the moments whose second is before \<open>exp\<close>, hence at no moment from the
  expiry reading on. For a clock that stands still, \<open>exp\<close> is not after \<open>iat\<close> and
  \<open>validateToken\<close> rejects the token at once.
\<close>

theorem nonpositive_validity_used_as_is:
  assumes "apiSecret P \<noteq> []" and "v \<le> 0"
  shows "generateUserToken H P uid None clk = generateUserToken H P uid (Some 3600) clk
       \<and> (\<exists>ti p i e. generateUserToken H P uid (Some v) clk = Inr ti
             \<and> expiresAt ti = clk ExpiresAtNow + v * 1000
             \<and> jwt_decode (token ti) = Some p \<and> iat p = Some i \<and> exp p = Some e
             \<and> i = issued_second clk \<and> e = clk ExpNow div 1000 + v
             \<and> e - i = v + clock_drift clk
             \<and> e \<le> clk ExpNow div 1000
             \<and> (\<forall>t. validateToken H P (token ti) (frozen t) = Inr (t div 1000 < e))
             \<and> (\<forall>clk'. clk ExpNow div 1000 \<le> clk' VerifyClock div 1000
                    \<longrightarrow> validateToken H P (token ti) clk' = Inr False))
       \<and> (\<exists>ti p i e. generateUserToken H P uid (Some v) (frozen now) = Inr ti
             \<and> expiresAt ti = now + v * 1000
             \<and> jwt_decode (token ti) = Some p \<and> iat p = Some i \<and> exp p = Some e
             \<and> i = now div 1000 \<and> e = now div 1000 + v \<and> e \<le> i
             \<and> validateToken H P (token ti) (frozen now) = Inr False)"
proof -
  have default: "generateUserToken H P uid None clk = generateUserToken H P uid (Some 3600) clk"
    by (simp add: generateUserToken_def)
  have general: "\<exists>ti p i e. generateUserToken H P uid (Some v) c = Inr ti
             \<and> expiresAt ti = c ExpiresAtNow + v * 1000
             \<and> jwt_decode (token ti) = Some p \<and> iat p = Some i \<and> exp p = Some e
             \<and> i = issued_second c \<and> e = c ExpNow div 1000 + v
             \<and> e - i = v + clock_drift c
             \<and> e \<le> c ExpNow div 1000
             \<and> (\<forall>t. validateToken H P (token ti) (frozen t) = Inr (t div 1000 < e))
             \<and> (\<forall>clk'. c ExpNow div 1000 \<le> clk' VerifyClock div 1000
                    \<longrightarrow> validateToken H P (token ti) clk' = Inr False)" for c
  proof -
    let ?e = "c ExpNow div 1000 + v"
    let ?p = "\<lparr>user_id = Some uid, iat = Some (issued_second c), exp = Some ?e, nbf = None\<rparr>"
    let ?ti = "\<lparr>token = jws_sign H HS256 ?p (apiSecret P),
                expiresAt = c ExpiresAtNow + v * 1000, userId = uid\<rparr>"
    have mint: "generateUserToken H P uid (Some v) c = Inr ?ti"
      using generateUserToken_signed [OF assms(1), of H uid "Some v" c] by simp
    have dec: "jwt_decode (token ?ti) = Some ?p"
      by (simp add: jwt_decode_jws_sign)
    have diff: "?e - issued_second c = v + clock_drift c"
      by (simp add: clock_drift_def)
    have at: "validateToken H P (token ?ti) (frozen t) = Inr (t div 1000 < ?e)" for t
      using assms(1) validateToken_signed_at [of "apiSecret P" P ?p ?e H t] by simp
    have later: "validateToken H P (token ?ti) clk' = Inr False"
      if "c ExpNow div 1000 \<le> clk' VerifyClock div 1000" for clk'
      using assms that validateToken_signed [of "apiSecret P" P ?p ?e H clk'] by simp
    from mint dec diff at later assms(2) show ?thesis
      by (intro exI [of _ ?ti] exI [of _ ?p] exI [of _ "issued_second c"] exI [of _ ?e]) simp
  qed
  from general [of "frozen now"] obtain ti p i e
    where "generateUserToken H P uid (Some v) (frozen now) = Inr ti"
      and "expiresAt ti = frozen now ExpiresAtNow + v * 1000"
      and "jwt_decode (token ti) = Some p" and "iat p = Some i" and "exp p = Some e"
      and "i = issued_second (frozen now)" and "e = frozen now ExpNow div 1000 + v"
      and "\<forall>t. validateToken H P (token ti) (frozen t) = Inr (t div 1000 < e)"
    by blast
  then have still: "\<exists>ti p i e. generateUserToken H P uid (Some v) (frozen now) = Inr ti
             \<and> expiresAt ti = now + v * 1000
             \<and> jwt_decode (token ti) = Some p \<and> iat p = Some i \<and> exp p = Some e
             \<and> i = now div 1000 \<and> e = now div 1000 + v \<and> e \<le> i
             \<and> validateToken H P (token ti) (frozen now) = Inr False"
    using assms(2)
    by (intro exI [of _ ti] exI [of _ p] exI [of _ i] exI [of _ e])
      (simp add: issued_second_def frozen_def)
  from default general [of clk] still show ?thesis by blast
qed

theorem nonpositive_validity_used_as_is_witness:
  "apiSecret example_provider \<noteq> [] \<and> (0::int) \<le> 0
   \<and> (\<exists>ti p. generateUserToken example_mac example_provider ''alice'' (Some 0) (frozen 5000) = Inr ti
         \<and> expiresAt ti = 5000
         \<and> jwt_decode (token ti) = Some p \<and> iat p = Some 5 \<and> exp p = Some 5
         \<and> validateToken example_mac example_provider (token ti) (frozen 5000) = Inr False)
   \<and> early_tick ExpNow div 1000 \<le> frozen 2000 VerifyClock div 1000
   \<and> (\<exists>ti p. generateUserToken example_mac example_provider ''alice'' (Some 0) early_tick = Inr ti
         \<and> expiresAt ti = 2000
         \<and> jwt_decode (token ti) = Some p \<and> iat p = Some 1 \<and> exp p = Some 2
         \<and> validateToken example_mac example_provider (token ti) (frozen 2000) = Inr False)"
proof -
  have h: "apiSecret example_provider \<noteq> []" by (simp add: example_token_simps)
  have z: "(0::int) \<le> 0" by simp
  have later: "early_tick ExpNow div 1000 \<le> frozen 2000 VerifyClock div 1000"
    by (simp add: early_tick_def frozen_def)
  note inst = nonpositive_validity_used_as_is [OF h z, of example_mac "''alice''" early_tick 5000]
  from inst obtain ti p i e
    where m: "generateUserToken example_mac example_provider ''alice'' (Some 0) (frozen 5000) = Inr ti"
      and x: "expiresAt ti = 5000 + 0 * 1000"
      and d: "jwt_decode (token ti) = Some p" and i: "iat p = Some i" and e: "exp p = Some e"
      and iv: "i = 5000 div 1000" and ev: "e = 5000 div 1000 + 0"
      and f: "validateToken example_mac example_provider (token ti) (frozen 5000) = Inr False"
    by blast
  from iv ev have "i = 5" and "e = 5" by simp_all
  with i e have "iat p = Some 5" and "exp p = Some 5" by simp_all
  moreover from x have "expiresAt ti = 5000" by simp
  ultimately have still: "\<exists>ti p.
      generateUserToken example_mac example_provider ''alice'' (Some 0) (frozen 5000) = Inr ti
         \<and> expiresAt ti = 5000
         \<and> jwt_decode (token ti) = Some p \<and> iat p = Some 5 \<and> exp p = Some 5
         \<and> validateToken example_mac example_provider (token ti) (frozen 5000) = Inr False"
    using m d f by blast
  from inst obtain ti' p' i' e'
    where m': "generateUserToken example_mac example_provider ''alice'' (Some 0) early_tick = Inr ti'"
      and x': "expiresAt ti' = early_tick ExpiresAtNow + 0 * 1000"
      and d': "jwt_decode (token ti') = Some p'" and i': "iat p' = Some i'" and e': "exp p' = Some e'"
      and iv': "i' = issued_second early_tick" and ev': "e' = early_tick ExpNow div 1000 + 0"
      and f': "\<forall>clk'. early_tick ExpNow div 1000 \<le> clk' VerifyClock div 1000
                 \<longrightarrow> validateToken example_mac example_provider (token ti') clk' = Inr False"
    by blast
  from iv' ev' have "i' = 1" and "e' = 2"
    by (simp_all add: issued_second_def early_tick_def)
  with i' e' have "iat p' = Some 1" and "exp p' = Some 2" by simp_all
  moreover from x' have "expiresAt ti' = 2000" by (simp add: early_tick_def)
  moreover from f' later
  have "validateToken example_mac example_provider (token ti') (frozen 2000) = Inr False"
    by blast
  ultimately have moving: "\<exists>ti p.
      generateUserToken example_mac example_provider ''alice'' (Some 0) early_tick = Inr ti
         \<and> expiresAt ti = 2000
         \<and> jwt_decode (token ti) = Some p \<and> iat p = Some 1 \<and> exp p = Some 2
         \<and> validateToken example_mac example_provider (token ti) (frozen 2000) = Inr False"
    using m' d' by blast
  from h z still later moving show ?thesis by blast
qed

text \<open>
  C10 (as stated) fails when the clock passes into the next second between the
  readings for \<open>iat\<close> and \<open>exp\<close>. With the value 0, the first reading at 1999 and
  the second at 2000, the token has \<open>iat\<close> 1 and \<open>exp\<close> 2: the expiry is after the
  issue time.
\<close>

theorem nonpositive_validity_expiry_after_issue:
  "(0::int) \<le> 0
   \<and> generateUserToken example_mac example_provider ''alice'' (Some 0) early_tick
       = Inr \<lparr>token = jws_sign example_mac HS256
                         \<lparr>user_id = Some ''alice'', iat = Some 1, exp = Some 2, nbf = None\<rparr>
                         ''s3cret'',
              expiresAt = 2000, userId = ''alice''\<rparr>
   \<and> jwt_decode (jws_sign example_mac HS256
          \<lparr>user_id = Some ''alice'', iat = Some 1, exp = Some 2, nbf = None\<rparr> ''s3cret'')
       = Some \<lparr>user_id = Some ''alice'', iat = Some 1, exp = Some 2, nbf = None\<rparr>
   \<and> \<not> ((2::int) \<le> 1)"
proof -
  have "generateUserToken example_mac example_provider ''alice'' (Some 0) early_tick
       = Inr \<lparr>token = jws_sign example_mac HS256
                         \<lparr>user_id = Some ''alice'', iat = Some 1, exp = Some 2, nbf = None\<rparr>
                         ''s3cret'',
              expiresAt = 2000, userId = ''alice''\<rparr>"
    using generateUserToken_signed [of example_provider example_mac "''alice''" "Some 0" early_tick]
    by (simp add: example_token_simps issued_second_def early_tick_def)
  then show ?thesis by (simp add: jwt_decode_jws_sign)
qed

end
